theory Spec2Isabelle
  imports Main "HOL-Library.Word" "HOL-Library.Sublist"
begin

unbundle bit_operations_syntax

section \<open>String helpers of the JavaScript runtime\<close>

text \<open>
  Commands, addresses, UCI names and command output are modelled as \<open>string\<close>; a
  \<open>char\<close> stands for a code unit below 256 (ASCII and the Latin-1 supplement).
  The helpers below give the behaviour of the \<open>String.prototype\<close> methods the router
  client calls: \<open>includes\<close>, \<open>split\<close> (non-empty separator), \<open>trim\<close>,
  \<open>toLowerCase\<close>, \<open>substring(0, n)\<close>, \<open>replace\<close> with a string pattern (first
  occurrence only) and the template-literal rendering of an integer.
\<close>

definition is_digit :: "char \<Rightarrow> bool" where
  "is_digit c = (c \<in> set ''0123456789'')"

definition digit_val :: "char \<Rightarrow> nat" where
  "digit_val c = of_char c - 48"

definition digit_char :: "nat \<Rightarrow> char" where
  "digit_char d = ''0123456789'' ! d"

fun includes_str :: "string \<Rightarrow> string \<Rightarrow> bool" where
  "includes_str sep [] = (sep = [])"
| "includes_str sep (c # cs) = (prefix sep (c # cs) \<or> includes_str sep cs)"

text \<open>\<open>s.split(sep)\<close> for a non-empty separator; \<open>acc\<close> holds the current piece reversed.\<close>

function split_from :: "string \<Rightarrow> string \<Rightarrow> string \<Rightarrow> string list" where
  "split_from sep acc [] = [rev acc]"
| "split_from sep acc (c # cs) =
     (if sep \<noteq> [] \<and> prefix sep (c # cs)
      then rev acc # split_from sep [] (drop (length sep) (c # cs))
      else split_from sep (c # acc) cs)"
  by pat_completeness auto
termination
  by (relation "measure (\<lambda>(sep, acc, s). length s)") auto

definition split_str :: "string \<Rightarrow> string \<Rightarrow> string list" where
  "split_str sep s = split_from sep [] s"

text \<open>\<open>xs[i]\<close> on an array: \<open>undefined\<close> (here \<open>None\<close>) out of range.\<close>

fun nth_opt :: "'a list \<Rightarrow> nat \<Rightarrow> 'a option" where
  "nth_opt [] n = None"
| "nth_opt (x # xs) 0 = Some x"
| "nth_opt (x # xs) (Suc n) = nth_opt xs n"

text \<open>
  The white space that \<open>trim\<close> and \<open>parseInt\<close> skip: of the code units below 256
  these are U+0009 to U+000D, the space and the no-break space U+00A0.
\<close>

definition is_space :: "char \<Rightarrow> bool" where
  "is_space c = (of_char c \<in> {9, 10, 11, 12, 13, 32, 160 :: nat})"

definition trim :: "string \<Rightarrow> string" where
  "trim s = rev (dropWhile is_space (rev (dropWhile is_space s)))"

text \<open>Lower case: A to Z, and the capital letters U+00C0 to U+00DE except U+00D7.\<close>

definition to_lower_char :: "char \<Rightarrow> char" where
  "to_lower_char c =
     (let n = of_char c :: nat
      in if (65 \<le> n \<and> n \<le> 90) \<or> (192 \<le> n \<and> n \<le> 222 \<and> n \<noteq> 215)
         then char_of (n + 32) else c)"

definition toLowerCase :: "string \<Rightarrow> string" where
  "toLowerCase s = map to_lower_char s"

fun replace_first :: "string \<Rightarrow> string \<Rightarrow> string \<Rightarrow> string" where
  "replace_first pat rep [] = (if pat = [] then rep else [])"
| "replace_first pat rep (c # cs) =
     (if prefix pat (c # cs) then rep @ drop (length pat) (c # cs)
      else c # replace_first pat rep cs)"

text \<open>Decimal rendering of a number that holds an integer, as a template literal gives it.\<close>

fun show_nat :: "nat \<Rightarrow> string" where
  "show_nat n = (if n < 10 then [digit_char n] else show_nat (n div 10) @ [digit_char (n mod 10)])"

declare show_nat.simps [simp del]

definition show_int :: "int \<Rightarrow> string" where
  "show_int i = (if i < 0 then CHR ''-'' # show_nat (nat (- i)) else show_nat (nat i))"

text \<open>Value of a non-empty run of decimal digits (\<open>parseInt(ds, 10)\<close> on such a run).\<close>

definition digits_val :: "string \<Rightarrow> nat" where
  "digits_val ds = foldl (\<lambda>a c. 10 * a + digit_val c) 0 ds"

section \<open>Address resolver: \<open>parseRouterUrl\<close> of the SSH+UCI client\<close>

text \<open>
  The regular expression \<open>/:(\d+)/\<close>: the leftmost colon that is followed by a digit,
  with the longest run of digits after it as the captured group.
\<close>

fun match_port :: "string \<Rightarrow> string option" where
  "match_port [] = None"
| "match_port (c # cs) =
     (if c = CHR '':'' \<and> takeWhile is_digit cs \<noteq> [] then Some (takeWhile is_digit cs)
      else match_port cs)"

record parsed_url =
  hostname :: string
  port :: nat
  baseUrl :: string

definition mk_parsed :: "string \<Rightarrow> nat \<Rightarrow> parsed_url" where
  "mk_parsed h p = \<lparr>hostname = h, port = p, baseUrl = ''http://'' @ h @ '':'' @ show_nat p\<rparr>"

text \<open>
  \<open>split(sep)[0]\<close> always exists. \<open>split('://')[1]\<close> is read only where
  \<open>includes('://')\<close> holds, where it exists as well; the \<open>None\<close> branch stands for the
  \<open>TypeError\<close> that \<open>undefined.match\<close> would raise.
\<close>

definition parseRouterUrl :: "string \<Rightarrow> parsed_url option" where
  "parseRouterUrl url =
     (if includes_str ''://'' url then
        (case nth_opt (split_str ''://'' url) 1 of
           None \<Rightarrow> None
         | Some withoutProtocol \<Rightarrow>
             (case match_port withoutProtocol of
                Some ds \<Rightarrow> Some (mk_parsed (hd (split_str '':'' withoutProtocol)) (digits_val ds))
              | None \<Rightarrow> Some (mk_parsed (hd (split_str ''/'' withoutProtocol)) 22)))
      else
        (case match_port url of
           Some ds \<Rightarrow> Some (mk_parsed (hd (split_str '':'' url)) (digits_val ds))
         | None \<Rightarrow> Some (mk_parsed url 22)))"

section \<open>Rule validation helpers\<close>

text \<open>
  A small regular-expression matcher (Brzozowski derivatives) for anchored patterns, so
  that \<open>ipv4Regex\<close> can be written down as it stands in the source.
\<close>

datatype rx = Eps | OneOf string | Seq rx rx | Alt rx rx | Opt rx | NoMatch

fun nullable :: "rx \<Rightarrow> bool" where
  "nullable Eps = True"
| "nullable (OneOf cs) = False"
| "nullable (Seq r s) = (nullable r \<and> nullable s)"
| "nullable (Alt r s) = (nullable r \<or> nullable s)"
| "nullable (Opt r) = True"
| "nullable NoMatch = False"

fun deriv :: "char \<Rightarrow> rx \<Rightarrow> rx" where
  "deriv c Eps = NoMatch"
| "deriv c (OneOf cs) = (if c \<in> set cs then Eps else NoMatch)"
| "deriv c (Seq r s) =
     (if nullable r then Alt (Seq (deriv c r) s) (deriv c s) else Seq (deriv c r) s)"
| "deriv c (Alt r s) = Alt (deriv c r) (deriv c s)"
| "deriv c (Opt r) = deriv c r"
| "deriv c NoMatch = NoMatch"

definition rx_test :: "rx \<Rightarrow> string \<Rightarrow> bool" where
  "rx_test r s = nullable (foldl (\<lambda>r c. deriv c r) r s)"

definition rx_lit :: "string \<Rightarrow> rx" where
  "rx_lit s = foldr (\<lambda>c r. Seq (OneOf [c]) r) s Eps"

text \<open>\<open>(?:25[0-5]|2[0-4][0-9]|[01]?[0-9][0-9]?)\<close>\<close>

definition octetRx :: rx where
  "octetRx =
     Alt (Seq (rx_lit ''25'') (OneOf ''012345''))
      (Alt (Seq (OneOf ''2'') (Seq (OneOf ''01234'') (OneOf ''0123456789'')))
           (Seq (Opt (OneOf ''01'')) (Seq (OneOf ''0123456789'') (Opt (OneOf ''0123456789'')))))"

text \<open>\<open>/^(?:octet\.){3}octet$/\<close>\<close>

definition ipv4Regex :: rx where
  "ipv4Regex =
     Seq (Seq octetRx (OneOf ''.'')) (Seq (Seq octetRx (OneOf ''.''))
       (Seq (Seq octetRx (OneOf ''.'')) octetRx))"

definition isValidIpAddress :: "string \<Rightarrow> bool" where
  "isValidIpAddress ip = rx_test ipv4Regex ip"

text \<open>
  Ports are JSON numbers holding an integer, so \<open>Number.isInteger\<close> is true of them and
  the range test remains.
\<close>

definition isValidPort :: "int \<Rightarrow> bool" where
  "isValidPort p = (p \<ge> 1 \<and> p \<le> 65535)"

definition uci_safe_char :: "char \<Rightarrow> char" where
  "uci_safe_char c =
     (if c \<in> set ''abcdefghijklmnopqrstuvwxyz0123456789_'' then c else CHR ''_'')"

definition generateUciName :: "string \<Rightarrow> string" where
  "generateUciName nm = take 32 (map uci_safe_char (toLowerCase nm))"

section \<open>Remote calls and the router as environment\<close>

text \<open>
  Every remote call the client makes is recorded, in order, in a trace. The router is the
  environment: it answers a call depending on the calls made before it. An SSH call is one
  connection that runs one command; an RPC call is one HTTP POST to
  \<open>baseUrl + rpcPath + '/' + group\<close> with JSON fields \<open>method\<close> and \<open>params\<close> and, in the
  older client, the \<open>X-LuCI-Auth\<close> header. All calls of one client carry the same host and
  credentials, which are therefore left out of a request.
\<close>

datatype json = JNull | JBool bool | JNum int | JStr string | JArr "json list"
  | JObj "(string \<times> json) list"

datatype request = Exec string | Post string json json "json option"

datatype ssh_reply = Closed int string string | SshError string

record rpc_body =
  body_error :: json
  body_result :: json

datatype http_reply = Response bool nat string "rpc_body option" | FetchError string

record router =
  ssh_reply_of :: "request list \<Rightarrow> string \<Rightarrow> ssh_reply"
  http_reply_of :: "request list \<Rightarrow> request \<Rightarrow> http_reply"

datatype error = Error string | TypeError string

fun truthy :: "json \<Rightarrow> bool" where
  "truthy JNull = False"
| "truthy (JBool b) = b"
| "truthy (JNum n) = (n \<noteq> 0)"
| "truthy (JStr s) = (s \<noteq> [])"
| "truthy (JArr xs) = True"
| "truthy (JObj kvs) = True"

definition quote :: "string \<Rightarrow> string" where
  "quote s = [CHR 0x27] @ s @ [CHR 0x27]"

section \<open>SshUciClient\<close>

text \<open>
  \<open>exec\<close>: connect, run one command, collect stdout and stderr, close. It resolves with
  the trimmed stdout when the exit code is 0 and rejects otherwise (\<open>Closed\<close>), or
  rejects with the connection's error (\<open>SshError\<close>).
\<close>

definition exec :: "router \<Rightarrow> string \<Rightarrow> request list \<Rightarrow> (error + string) \<times> request list" where
  "exec R command tr =
     (case ssh_reply_of R tr command of
        Closed code out errout \<Rightarrow>
          if code = 0 then Inr (trim out)
          else Inl (Error (''Command exited with code '' @ show_int code @ '': '' @ errout))
      | SshError msg \<Rightarrow> Inl (Error msg),
      tr @ [Exec command])"

text \<open>The replies with which \<open>exec\<close> resolves.\<close>

fun exec_ok :: "ssh_reply \<Rightarrow> bool" where
  "exec_ok (Closed code out errout) = (code = 0)"
| "exec_ok (SshError msg) = False"

text \<open>A run of \<open>await this.exec(...)\<close> statements: the first rejection ends the run.\<close>

fun exec_all :: "router \<Rightarrow> string list \<Rightarrow> request list \<Rightarrow> (error + string list) \<times> request list" where
  "exec_all R [] tr = (Inr [], tr)"
| "exec_all R (c # cs) tr =
     (case exec R c tr of
        (Inl e, tr') \<Rightarrow> (Inl e, tr')
      | (Inr out, tr') \<Rightarrow>
          (case exec_all R cs tr' of
             (Inl e, tr'') \<Rightarrow> (Inl e, tr'')
           | (Inr outs, tr'') \<Rightarrow> (Inr (out # outs), tr'')))"

record forward_config =
  name :: "string option"
  protocol :: "string option"
  externalPort :: int
  internalIp :: string
  internalPort :: int
  src :: "string option"
  dest :: "string option"
  target :: "string option"

text \<open>\<open>x || d\<close> on an optional string: the default replaces \<open>undefined\<close> and \<open>''\<close>.\<close>

definition or_default :: "string option \<Rightarrow> string \<Rightarrow> string" where
  "or_default x d = (case x of None \<Rightarrow> d | Some s \<Rightarrow> if s = [] then d else s)"

definition set_cmd :: "string \<Rightarrow> string \<Rightarrow> string" where
  "set_cmd opt v = ''uci set firewall.@redirect[-1].'' @ opt @ ''='' @ quote v"

definition addRedirect_commands :: "forward_config \<Rightarrow> string list" where
  "addRedirect_commands config =
     [''uci add firewall redirect'',
      set_cmd ''name'' (generateUciName (or_default (name config) ''port_forward'')),
      set_cmd ''target'' ''DNAT'',
      set_cmd ''src'' ''wan'',
      set_cmd ''dest'' ''lan'',
      set_cmd ''proto'' (or_default (protocol config) ''tcp''),
      set_cmd ''src_dport'' (show_int (externalPort config)),
      set_cmd ''dest_ip'' (internalIp config),
      set_cmd ''dest_port'' (show_int (internalPort config)),
      set_cmd ''enabled'' ''1'',
      ''uci commit firewall'',
      ''/etc/init.d/firewall restart 2>/dev/null || true'']"

record add_result =
  add_success :: bool
  add_id :: string

definition addRedirect ::
  "router \<Rightarrow> forward_config \<Rightarrow> request list \<Rightarrow> (error + add_result) \<times> request list" where
  "addRedirect R config tr =
     (case exec_all R (addRedirect_commands config) tr of
        (Inl e, tr') \<Rightarrow> (Inl e, tr')
      | (Inr outs, tr') \<Rightarrow>
          (Inr \<lparr>add_success = True,
                add_id = generateUciName (or_default (name config) ''port_forward'')\<rparr>, tr'))"

definition deleteRedirect ::
  "router \<Rightarrow> string \<Rightarrow> request list \<Rightarrow> (error + bool) \<times> request list" where
  "deleteRedirect R ident tr =
     (case exec_all R [''uci delete firewall.'' @ ident, ''uci commit firewall'',
                       ''/etc/init.d/firewall restart 2>/dev/null || true''] tr of
        (Inl e, tr') \<Rightarrow> (Inl e, tr')
      | (Inr outs, tr') \<Rightarrow> (Inr True, tr'))"

text \<open>
  \<open>parseInt(s)\<close> without a radix: leading white space, an optional sign, then hexadecimal
  digits after \<open>0x\<close> or decimal digits otherwise; \<open>None\<close> is \<open>NaN\<close>. (Values beyond
  \<open>2^53\<close>, which a double rounds, do not occur for ports.)
\<close>

definition is_hex_digit :: "char \<Rightarrow> bool" where
  "is_hex_digit c = (c \<in> set ''0123456789abcdefABCDEF'')"

definition hex_digit_val :: "char \<Rightarrow> nat" where
  "hex_digit_val c =
     (if is_digit c then of_char c - 48
      else if c \<in> set ''abcdef'' then of_char c - 87 else of_char c - 55)"

definition parseInt :: "string \<Rightarrow> int option" where
  "parseInt str =
     (let s = dropWhile is_space str;
          neg = (s \<noteq> [] \<and> hd s = CHR ''-'');
          s1 = (if s \<noteq> [] \<and> hd s \<in> set ''+-'' then tl s else s);
          hex = (prefix ''0x'' s1 \<or> prefix ''0X'' s1);
          z = (if hex then takeWhile is_hex_digit (drop 2 s1) else takeWhile is_digit s1);
          v = (if hex then foldl (\<lambda>a c. 16 * a + hex_digit_val c) 0 z else digits_val z)
      in if z = [] then None else Some (if neg then - int v else int v))"

text \<open>\<open>parseInt(s) || 0\<close>\<close>

definition parseInt_or0 :: "string \<Rightarrow> int" where
  "parseInt_or0 s = (case parseInt s of None \<Rightarrow> 0 | Some v \<Rightarrow> v)"

text \<open>
  \<open>/firewall\.([^=]+)=redirect/\<close>: the leftmost \<open>firewall.\<close> that is followed by a
  non-empty run without \<open>=\<close> and then by \<open>=redirect\<close>; the run is the captured group.
\<close>

fun match_redirect_line :: "string \<Rightarrow> string option" where
  "match_redirect_line [] = None"
| "match_redirect_line (c # cs) =
     (if prefix ''firewall.'' (c # cs)
         \<and> takeWhile (\<lambda>x. x \<noteq> CHR ''='') (drop 9 (c # cs)) \<noteq> []
         \<and> prefix ''=redirect'' (dropWhile (\<lambda>x. x \<noteq> CHR ''='') (drop 9 (c # cs)))
      then Some (takeWhile (\<lambda>x. x \<noteq> CHR ''='') (drop 9 (c # cs)))
      else match_redirect_line cs)"

record redirect_rule =
  rule_id :: string
  rule_name :: string
  rule_target :: string
  rule_src :: string
  rule_dest :: string
  rule_protocol :: string
  rule_external_port :: int
  rule_internal_ip :: string
  rule_internal_port :: int
  rule_enabled :: bool

definition redirect_fields :: "string list" where
  "redirect_fields =
     [''name'', ''target'', ''src'', ''dest'', ''proto'', ''src_dport'', ''dest_ip'',
      ''dest_port'', ''enabled'']"

definition get_cmd :: "string \<Rightarrow> string \<Rightarrow> string" where
  "get_cmd uciName opt = ''uci get firewall.'' @ uciName @ ''.'' @ opt @ '' 2>/dev/null''"

text \<open>The object pushed for one section; \<open>outs\<close> holds the nine outputs in field order.\<close>

definition mk_rule :: "string \<Rightarrow> string list \<Rightarrow> redirect_rule" where
  "mk_rule uciName outs =
     \<lparr>rule_id = uciName,
      rule_name = (if outs ! 0 \<noteq> [] then outs ! 0
                   else ''Redirect '' @ replace_first '']'' [] (replace_first ''@redirect['' [] uciName)),
      rule_target = outs ! 1,
      rule_src = outs ! 2,
      rule_dest = outs ! 3,
      rule_protocol = (if outs ! 4 \<noteq> [] then outs ! 4 else ''tcp''),
      rule_external_port = parseInt_or0 (outs ! 5),
      rule_internal_ip = outs ! 6,
      rule_internal_port = parseInt_or0 (outs ! 7),
      rule_enabled = (outs ! 8 \<noteq> ''0'')\<rparr>"

text \<open>The \<open>for (const line of lines)\<close> loop of \<open>getRedirects\<close>.\<close>

fun read_rules ::
  "router \<Rightarrow> string list \<Rightarrow> request list \<Rightarrow> (error + redirect_rule list) \<times> request list" where
  "read_rules R [] tr = (Inr [], tr)"
| "read_rules R (line # lines) tr =
     (case match_redirect_line line of
        None \<Rightarrow> read_rules R lines tr
      | Some uciName \<Rightarrow>
          (case exec_all R (map (get_cmd uciName) redirect_fields) tr of
             (Inl e, tr') \<Rightarrow> (Inl e, tr')
           | (Inr outs, tr') \<Rightarrow>
               (case read_rules R lines tr' of
                  (Inl e, tr'') \<Rightarrow> (Inl e, tr'')
                | (Inr rules, tr'') \<Rightarrow> (Inr (mk_rule uciName outs # rules), tr''))))"

definition show_redirects_cmd :: string where
  "show_redirects_cmd = ''uci show firewall 2>/dev/null | grep '' @ quote ''=redirect''"

text \<open>
  \<open>getRedirects\<close>: the whole body is inside \<open>try\<close> (\<open>getRedirects_try\<close>); the
  \<open>catch\<close> logs the error and returns the empty array.
\<close>

definition getRedirects_try ::
  "router \<Rightarrow> request list \<Rightarrow> (error + redirect_rule list) \<times> request list" where
  "getRedirects_try R tr =
     (case exec R show_redirects_cmd tr of
        (Inl e, tr') \<Rightarrow> (Inl e, tr')
      | (Inr output, tr') \<Rightarrow>
          if output = [] then (Inr [], tr')
          else read_rules R (split_str [CHR 0x0A] output) tr')"

definition getRedirects ::
  "router \<Rightarrow> request list \<Rightarrow> (error + redirect_rule list) \<times> request list" where
  "getRedirects R tr =
     (case getRedirects_try R tr of
        (Inl e, tr') \<Rightarrow> (Inr [], tr')
      | (Inr rules, tr') \<Rightarrow> (Inr rules, tr'))"

record test_result =
  success :: bool
  message :: string

fun err_message :: "error \<Rightarrow> string" where
  "err_message (Error m) = m"
| "err_message (TypeError m) = m"

definition release_cmd :: string where
  "release_cmd = ''cat /etc/openwrt_release 2>/dev/null | head -1 || uname -r''"

text \<open>The fields \<open>version\<close> and \<open>code\<close> of the result are not modelled.\<close>

definition SshUciClient_testConnection ::
  "router \<Rightarrow> request list \<Rightarrow> test_result \<times> request list" where
  "SshUciClient_testConnection R tr =
     (case exec R release_cmd tr of
        (Inr version, tr') \<Rightarrow>
          (\<lparr>success = True, message = ''Connected to OpenWrt ('' @ version @ '')''\<rparr>, tr')
      | (Inl e, tr') \<Rightarrow>
          (\<lparr>success = False, message = ''SSH failed: '' @ err_message e\<rparr>, tr'))"

section \<open>OpenWrtRpcClient\<close>

text \<open>String conversion of a JSON value inside a template literal.\<close>

fun join_with :: "string \<Rightarrow> string list \<Rightarrow> string" where
  "join_with sep [] = []"
| "join_with sep [x] = x"
| "join_with sep (x # y # ys) = x @ sep @ join_with sep (y # ys)"

fun render :: "json \<Rightarrow> string" where
  "render JNull = ''null''"
| "render (JBool b) = (if b then ''true'' else ''false'')"
| "render (JNum n) = show_int n"
| "render (JStr s) = s"
| "render (JArr xs) = join_with '','' (map (\<lambda>x. if x = JNull then [] else render x) xs)"
| "render (JObj kvs) = ''[object Object]''"

record rpc_client =
  rpc_username :: string
  rpc_password :: string
  authToken :: json

definition http_failure :: "nat \<Rightarrow> string \<Rightarrow> error" where
  "http_failure status statusText = Error (''HTTP '' @ show_nat status @ '': '' @ statusText)"

text \<open>
  \<open>callRpc(method, params)\<close> posts to \<open>.../method\<close> with
  \<open>params: [this.authToken, 'uci', ...params]\<close>; a body that does not parse as JSON makes
  \<open>response.json()\<close> reject.
\<close>

definition OpenWrtRpcClient_callRpc ::
  "router \<Rightarrow> rpc_client \<Rightarrow> string \<Rightarrow> json list \<Rightarrow> request list
     \<Rightarrow> (error + rpc_body) \<times> request list" where
  "OpenWrtRpcClient_callRpc R c method params tr =
     (let req = Post method (JStr ''call'') (JArr (authToken c # JStr ''uci'' # params)) None
      in (case http_reply_of R tr req of
            FetchError msg \<Rightarrow> Inl (TypeError msg)
          | Response ok status statusText body \<Rightarrow>
              if \<not> ok then Inl (http_failure status statusText)
              else (case body of
                      None \<Rightarrow> Inl (Error ''Unexpected token in JSON'')
                    | Some d \<Rightarrow> Inr d),
          tr @ [req]))"

definition OpenWrtRpcClient_uci ::
  "router \<Rightarrow> rpc_client \<Rightarrow> string \<Rightarrow> json list \<Rightarrow> request list
     \<Rightarrow> (error + rpc_body) \<times> request list" where
  "OpenWrtRpcClient_uci R c method params tr =
     OpenWrtRpcClient_callRpc R c ''call'' [authToken c, JStr ''uci'', JStr method, JArr params] tr"

definition OpenWrtRpcClient_authenticate ::
  "router \<Rightarrow> rpc_client \<Rightarrow> request list \<Rightarrow> (error + json) \<times> rpc_client \<times> request list" where
  "OpenWrtRpcClient_authenticate R c tr =
     (let req = Post ''auth'' (JStr ''login'') (JArr [JStr (rpc_username c), JStr (rpc_password c)]) None
      in (case http_reply_of R tr req of
            FetchError msg \<Rightarrow> (Inl (TypeError msg), c, tr @ [req])
          | Response ok status statusText body \<Rightarrow>
              if \<not> ok then
                (Inl (Error (''Authentication failed: HTTP '' @ show_nat status)), c, tr @ [req])
              else (case body of
                      None \<Rightarrow> (Inl (Error ''Unexpected token in JSON''), c, tr @ [req])
                    | Some d \<Rightarrow>
                        if truthy (body_error d) then
                          (Inl (Error (''Authentication failed: '' @ render (body_error d))), c,
                           tr @ [req])
                        else (Inr (body_result d), c\<lparr>authToken := body_result d\<rparr>, tr @ [req]))))"

definition sysinfo_params :: "rpc_client \<Rightarrow> json list" where
  "sysinfo_params c =
     [authToken c, JStr ''uci'', JStr ''get'', JArr [JStr ''system'', JStr ''info'']]"

definition OpenWrtRpcClient_testConnection ::
  "router \<Rightarrow> rpc_client \<Rightarrow> request list \<Rightarrow> test_result \<times> rpc_client \<times> request list" where
  "OpenWrtRpcClient_testConnection R c tr =
     (case OpenWrtRpcClient_authenticate R c tr of
        (Inl e, c', tr') \<Rightarrow>
          (\<lparr>success = False, message = ''JSON-RPC failed: '' @ err_message e\<rparr>, c', tr')
      | (Inr tok, c', tr') \<Rightarrow>
          (case OpenWrtRpcClient_callRpc R c' ''call'' (sysinfo_params c') tr' of
             (Inl e, tr'') \<Rightarrow>
               (\<lparr>success = False, message = ''JSON-RPC failed: '' @ err_message e\<rparr>, c', tr'')
           | (Inr sysInfo, tr'') \<Rightarrow>
               (\<lparr>success = True, message = ''JSON-RPC connection successful''\<rparr>, c', tr'')))"

section \<open>OpenWrtClient: the unified client\<close>

record ssh_client =
  ssh_hostname :: string
  ssh_port :: nat
  ssh_username :: string
  ssh_password :: string
  ssh_timeout :: nat

record client = parsed_url +
  connectionMode :: string
  rpcClient :: "rpc_client option"
  sshClient :: "ssh_client option"
  username :: string
  password :: string
  timeout :: nat

record client_config =
  cfg_url :: string
  cfg_port :: "nat option"
  cfg_username :: string
  cfg_password :: string
  cfg_connectionMode :: "string option"
  cfg_timeout :: "nat option"

text \<open>\<open>x || d\<close> on an optional number: the default replaces \<open>undefined\<close> and \<open>0\<close>.\<close>

definition num_or :: "nat option \<Rightarrow> nat \<Rightarrow> nat" where
  "num_or x d = (case x of None \<Rightarrow> d | Some n \<Rightarrow> if n = 0 then d else n)"

definition DEFAULT_TIMEOUT :: nat where
  "DEFAULT_TIMEOUT = 10000"

definition new_OpenWrtClient :: "client_config \<Rightarrow> client option" where
  "new_OpenWrtClient config =
     (case parseRouterUrl (cfg_url config) of
        None \<Rightarrow> None
      | Some parsed \<Rightarrow>
          Some \<lparr>hostname = hostname parsed,
                port = num_or (cfg_port config) (num_or (Some (port parsed)) 22),
                baseUrl = baseUrl parsed,
                connectionMode = or_default (cfg_connectionMode config) ''auto'',
                rpcClient = None,
                sshClient = None,
                username = cfg_username config,
                password = cfg_password config,
                timeout = num_or (cfg_timeout config) DEFAULT_TIMEOUT\<rparr>)"

definition new_SshUciClient :: "client \<Rightarrow> ssh_client" where
  "new_SshUciClient c =
     \<lparr>ssh_hostname = or_default (Some (hostname c)) ''192.168.1.1'',
      ssh_port = num_or (Some (port c)) 22,
      ssh_username = or_default (Some (username c)) ''root'',
      ssh_password = password c,
      ssh_timeout = num_or (Some (timeout c)) 15000\<rparr>"

definition new_OpenWrtRpcClient :: "client \<Rightarrow> rpc_client" where
  "new_OpenWrtRpcClient c =
     \<lparr>rpc_username = username c, rpc_password = password c, authToken = JNull\<rparr>"

definition unable_to_connect :: error where
  "unable_to_connect = Error ''Unable to connect to router. Please check your settings.''"

text \<open>
  \<open>initialize\<close>. \<open>SshUciClient.testConnection\<close> catches every error itself, so the
  \<open>catch\<close> around the SSH probe never runs. The fields assigned before a \<open>throw\<close> stay
  assigned, so the client is returned next to the result.
\<close>

definition OpenWrtClient_initialize ::
  "router \<Rightarrow> client \<Rightarrow> request list \<Rightarrow> (error + unit) \<times> client \<times> request list" where
  "OpenWrtClient_initialize R c tr =
     (if connectionMode c = ''ssh'' then
        (Inr (), c\<lparr>sshClient := Some (new_SshUciClient c)\<rparr>, tr)
      else if connectionMode c = ''rpc'' then
        (Inr (), c\<lparr>rpcClient := Some (new_OpenWrtRpcClient c)\<rparr>, tr)
      else
        (let c1 = c\<lparr>sshClient := Some (new_SshUciClient c)\<rparr>
         in (case SshUciClient_testConnection R tr of
               (sshResult, tr1) \<Rightarrow>
                 if success sshResult then (Inr (), c1\<lparr>connectionMode := ''ssh''\<rparr>, tr1)
                 else
                   (let rc = (case rpcClient c1 of
                                None \<Rightarrow> new_OpenWrtRpcClient c1
                              | Some r \<Rightarrow> r)
                    in (case OpenWrtRpcClient_testConnection R rc tr1 of
                          (rpcResult, rc1, tr2) \<Rightarrow>
                            if success rpcResult then
                              (case OpenWrtRpcClient_authenticate R rc1 tr2 of
                                 (Inr tok, rc2, tr3) \<Rightarrow>
                                   (Inr (), c1\<lparr>connectionMode := ''rpc'', rpcClient := Some rc2\<rparr>,
                                    tr3)
                               | (Inl e, rc2, tr3) \<Rightarrow>
                                   (Inl unable_to_connect, c1\<lparr>rpcClient := Some rc2\<rparr>, tr3))
                            else (Inl unable_to_connect, c1\<lparr>rpcClient := Some rc1\<rparr>, tr2))))))"

record mode_result = test_result +
  mode :: string
  requiresPlugins :: bool

text \<open>
  \<open>testConnection\<close>. The SSH probe resolves whether or not the connection works, so the
  two assignments after it always run and the function returns there; its \<open>catch\<close> and
  the JSON-RPC part after it are never reached.
\<close>

definition OpenWrtClient_testConnection ::
  "router \<Rightarrow> client \<Rightarrow> request list \<Rightarrow> mode_result \<times> client \<times> request list" where
  "OpenWrtClient_testConnection R c tr =
     (case SshUciClient_testConnection R tr of
        (result, tr1) \<Rightarrow>
          (\<lparr>success = success result, message = message result, mode = ''ssh'',
            requiresPlugins = False\<rparr>,
           c\<lparr>sshClient := Some (new_SshUciClient c), connectionMode := ''ssh''\<rparr>,
           tr1))"

record forwardings =
  local_rules :: "redirect_rule list"
  fw_mode :: string

definition null_deref :: "string \<Rightarrow> error" where
  "null_deref prop = TypeError (''Cannot read properties of null (reading '' @ quote prop @ '')'')"

definition OpenWrtClient_getPortForwardings ::
  "router \<Rightarrow> client \<Rightarrow> request list \<Rightarrow> (error + forwardings) \<times> request list" where
  "OpenWrtClient_getPortForwardings R c tr =
     (if connectionMode c = ''ssh'' then
        (case sshClient c of
           None \<Rightarrow> (Inl (null_deref ''getRedirects''), tr)
         | Some s \<Rightarrow>
             (case getRedirects R tr of
                (Inl e, tr') \<Rightarrow> (Inl e, tr')
              | (Inr rules, tr') \<Rightarrow> (Inr \<lparr>local_rules = rules, fw_mode = ''ssh''\<rparr>, tr')))
      else
        (case rpcClient c of
           None \<Rightarrow> (Inl (null_deref ''uci''), tr)
         | Some rc \<Rightarrow>
             (case OpenWrtRpcClient_uci R rc ''get'' [JStr ''firewall''] tr of
                (Inl e, tr') \<Rightarrow> (Inl e, tr')
              | (Inr d, tr') \<Rightarrow> (Inr \<lparr>local_rules = [], fw_mode = ''rpc''\<rparr>, tr'))))"

definition OpenWrtClient_addPortForwarding ::
  "router \<Rightarrow> client \<Rightarrow> forward_config \<Rightarrow> request list \<Rightarrow> (error + add_result) \<times> request list" where
  "OpenWrtClient_addPortForwarding R c config tr =
     (if connectionMode c = ''ssh'' then
        (case sshClient c of
           None \<Rightarrow> (Inl (null_deref ''addRedirect''), tr)
         | Some s \<Rightarrow> addRedirect R config tr)
      else (Inl (Error ''JSON-RPC mode not yet implemented for adding forwardings''), tr))"

definition OpenWrtClient_deletePortForwarding ::
  "router \<Rightarrow> client \<Rightarrow> string \<Rightarrow> request list \<Rightarrow> (error + bool) \<times> request list" where
  "OpenWrtClient_deletePortForwarding R c ident tr =
     (if connectionMode c = ''ssh'' then
        (case sshClient c of
           None \<Rightarrow> (Inl (null_deref ''deleteRedirect''), tr)
         | Some s \<Rightarrow> deleteRedirect R ident tr)
      else (Inl (Error ''JSON-RPC mode not yet implemented for deleting forwardings''), tr))"

section \<open>The JSON-RPC-only client\<close>

text \<open>
  The repository holds a second \<open>OpenWrtClient\<close>, which talks to the LuCI JSON-RPC
  endpoint only. Its methods carry the prefix \<open>Luci_\<close> here. A request of this client has
  the header \<open>X-LuCI-Auth\<close> once a truthy token is held; the random \<open>id\<close> of the payload
  is left out.
\<close>

record luci_client =
  luci_username :: string
  luci_password :: string
  luci_authToken :: json

definition luci_header :: "luci_client \<Rightarrow> json option" where
  "luci_header c = (if truthy (luci_authToken c) then Some (luci_authToken c) else None)"

definition Luci_callRpc ::
  "router \<Rightarrow> luci_client \<Rightarrow> string \<Rightarrow> json \<Rightarrow> json \<Rightarrow> request list
     \<Rightarrow> (error + rpc_body) \<times> request list" where
  "Luci_callRpc R c methodGroup method params tr =
     (let req = Post methodGroup method params (luci_header c)
      in (case http_reply_of R tr req of
            FetchError msg \<Rightarrow> Inl (Error msg)
          | Response ok status statusText body \<Rightarrow>
              if \<not> ok then Inl (http_failure status statusText)
              else (case body of
                      None \<Rightarrow> Inl (Error ''Unexpected token in JSON'')
                    | Some d \<Rightarrow> Inr d),
          tr @ [req]))"

definition login_method :: "luci_client \<Rightarrow> json" where
  "login_method c =
     JObj [(''method'', JStr ''login''),
           (''params'', JArr [JStr (luci_username c), JStr (luci_password c)])]"

definition Luci_authenticate ::
  "router \<Rightarrow> luci_client \<Rightarrow> request list \<Rightarrow> (error + json) \<times> luci_client \<times> request list" where
  "Luci_authenticate R c tr =
     (case Luci_callRpc R c ''auth'' (login_method c) (JArr []) tr of
        (Inl e, tr') \<Rightarrow> (Inl e, c, tr')
      | (Inr response, tr') \<Rightarrow>
          if truthy (body_error response) then
            (Inl (Error (''Authentication failed: '' @ render (body_error response))), c, tr')
          else (Inr (body_result response), c\<lparr>luci_authToken := body_result response\<rparr>, tr'))"

text \<open>The guard \<open>if (!this.authToken) await this.authenticate()\<close> that opens most methods.\<close>

definition ensure_auth ::
  "router \<Rightarrow> luci_client \<Rightarrow> request list \<Rightarrow> (error + unit) \<times> luci_client \<times> request list" where
  "ensure_auth R c tr =
     (if truthy (luci_authToken c) then (Inr (), c, tr)
      else (case Luci_authenticate R c tr of
              (Inl e, c', tr') \<Rightarrow> (Inl e, c', tr')
            | (Inr tok, c', tr') \<Rightarrow> (Inr (), c', tr')))"

definition Luci_uci ::
  "router \<Rightarrow> luci_client \<Rightarrow> string \<Rightarrow> json list \<Rightarrow> request list
     \<Rightarrow> (error + rpc_body) \<times> luci_client \<times> request list" where
  "Luci_uci R c command params tr =
     (case ensure_auth R c tr of
        (Inl e, c', tr') \<Rightarrow> (Inl e, c', tr')
      | (Inr u, c', tr') \<Rightarrow>
          (case Luci_callRpc R c' ''uci'' (JStr command) (JArr params) tr' of
             (r, tr'') \<Rightarrow> (r, c', tr'')))"

definition Luci_testConnection ::
  "router \<Rightarrow> luci_client \<Rightarrow> request list \<Rightarrow> test_result \<times> luci_client \<times> request list" where
  "Luci_testConnection R c tr =
     (case Luci_authenticate R c tr of
        (Inr tok, c', tr') \<Rightarrow> (\<lparr>success = True, message = ''Connection successful''\<rparr>, c', tr')
      | (Inl e, c', tr') \<Rightarrow>
          (\<lparr>success = False,
            message = or_default (Some (err_message e)) ''Failed to connect to router''\<rparr>, c', tr'))"

text \<open>
  Property reads on a parsed JSON value other than \<open>null\<close>: an object has the properties
  of its (distinct) keys; arrays, strings, numbers and booleans have none of the option
  names read here. \<open>Object.keys\<close> lists the keys of an object and the indices of an array
  or a string.
\<close>

fun get_prop :: "json \<Rightarrow> string \<Rightarrow> json option" where
  "get_prop (JObj kvs) k = map_of kvs k"
| "get_prop v k = None"

fun entries :: "json \<Rightarrow> (string \<times> json) list" where
  "entries (JObj kvs) = kvs"
| "entries (JArr xs) = zip (map show_nat [0..<length xs]) xs"
| "entries (JStr s) = zip (map show_nat [0..<length s]) (map (\<lambda>c. JStr [c]) s)"
| "entries v = []"

record luci_rule =
  uciName :: string
  luci_name :: json
  luci_target :: "json option"
  luci_src :: "json option"
  luci_dest :: "json option"
  luci_proto :: "json option"
  srcDport :: "json option"
  destIp :: "json option"
  destPort :: "json option"
  enabled :: bool
  reflection :: "json option"

definition mk_luci_rule :: "string \<Rightarrow> json \<Rightarrow> luci_rule" where
  "mk_luci_rule key section =
     \<lparr>uciName = key,
      luci_name = (case get_prop section ''name'' of
                     None \<Rightarrow> JStr key
                   | Some v \<Rightarrow> if truthy v then v else JStr key),
      luci_target = get_prop section ''target'',
      luci_src = get_prop section ''src'',
      luci_dest = get_prop section ''dest'',
      luci_proto = get_prop section ''proto'',
      srcDport = get_prop section ''src_dport'',
      destIp = get_prop section ''dest_ip'',
      destPort = get_prop section ''dest_port'',
      enabled = (get_prop section ''enabled'' \<noteq> Some (JStr ''0'')),
      reflection = get_prop section ''reflection''\<rparr>"

text \<open>The \<open>forEach\<close> over the sections; reading \<open>'.type'\<close> of a \<open>null\<close> section throws.\<close>

fun collect_redirects :: "(string \<times> json) list \<Rightarrow> error + luci_rule list" where
  "collect_redirects [] = Inr []"
| "collect_redirects ((key, section) # rest) =
     (if section = JNull then Inl (null_deref ''.type'')
      else (case collect_redirects rest of
              Inl e \<Rightarrow> Inl e
            | Inr rules \<Rightarrow>
                if get_prop section ''.type'' = Some (JStr ''redirect'')
                then Inr (mk_luci_rule key section # rules) else Inr rules))"

text \<open>
  \<open>getPortForwardings\<close>: the \<open>catch\<close> logs and throws the same error again.
\<close>

definition Luci_getPortForwardings ::
  "router \<Rightarrow> luci_client \<Rightarrow> request list
     \<Rightarrow> (error + luci_rule list) \<times> luci_client \<times> request list" where
  "Luci_getPortForwardings R c tr =
     (case ensure_auth R c tr of
        (Inl e, c', tr') \<Rightarrow> (Inl e, c', tr')
      | (Inr u, c', tr') \<Rightarrow>
          (case Luci_uci R c' ''get_all'' [JStr ''firewall''] tr' of
             (Inl e, c'', tr'') \<Rightarrow> (Inl e, c'', tr'')
           | (Inr response, c'', tr'') \<Rightarrow>
               if truthy (body_error response) then
                 (Inl (Error (''UCI error: '' @ render (body_error response))), c'', tr'')
               else
                 (collect_redirects
                    (if truthy (body_result response) then entries (body_result response) else []),
                  c'', tr'')))"

text \<open>A default in a destructuring pattern replaces \<open>undefined\<close> only.\<close>

definition or_undefined :: "string option \<Rightarrow> string \<Rightarrow> string" where
  "or_undefined x d = (case x of None \<Rightarrow> d | Some s \<Rightarrow> s)"

text \<open>
  A run of \<open>await this.uci(...)\<close> calls, each followed by the check of \<open>result.error\<close>;
  an entry is the command, its parameters and the prefix of the message thrown.
\<close>

fun uci_steps ::
  "router \<Rightarrow> luci_client \<Rightarrow> (string \<times> json list \<times> string) list \<Rightarrow> request list
     \<Rightarrow> (error + unit) \<times> luci_client \<times> request list" where
  "uci_steps R c [] tr = (Inr (), c, tr)"
| "uci_steps R c ((command, params, failure) # ops) tr =
     (case Luci_uci R c command params tr of
        (Inl e, c', tr') \<Rightarrow> (Inl e, c', tr')
      | (Inr result, c', tr') \<Rightarrow>
          if truthy (body_error result) then
            (Inl (Error (failure @ render (body_error result))), c', tr')
          else uci_steps R c' ops tr')"

definition set_op :: "string \<Rightarrow> string \<Rightarrow> string \<Rightarrow> string \<times> json list \<times> string" where
  "set_op section opt v =
     (''set'', [JStr ''firewall'', JStr section, JStr opt, JStr v],
      ''Failed to set '' @ section @ '': '')"

definition addPortForwarding_ops ::
  "string \<Rightarrow> forward_config \<Rightarrow> (string \<times> json list \<times> string) list" where
  "addPortForwarding_ops nm config =
     (let u = generateUciName nm in
      [(''add'', [JStr ''firewall'', JStr ''redirect''], ''Failed to add redirect: ''),
       (''rename'', [JStr ''firewall'', JStr ''@redirect[-1]'', JStr u],
        ''Failed to rename redirect: ''),
       set_op u ''name'' nm,
       set_op u ''target'' (or_undefined (target config) ''DNAT''),
       set_op u ''src'' (or_undefined (src config) ''wan''),
       set_op u ''dest'' (or_undefined (dest config) ''lan''),
       set_op u ''proto'' (or_undefined (protocol config) ''tcp''),
       set_op u ''src_dport'' (show_int (externalPort config)),
       set_op u ''dest_ip'' (internalIp config),
       set_op u ''dest_port'' (show_int (internalPort config)),
       set_op u ''enabled'' ''1'',
       (''commit'', [JStr ''firewall''], ''Failed to commit firewall config: '')])"

record luci_add_result =
  luci_success :: bool
  luci_uciName :: string
  luci_message :: string

text \<open>
  \<open>addPortForwarding\<close>: authentication guard, then the three validations, then the
  calls. \<open>generateUciName(undefined)\<close> throws a \<open>TypeError\<close>.
\<close>

definition Luci_addPortForwarding ::
  "router \<Rightarrow> luci_client \<Rightarrow> forward_config \<Rightarrow> request list
     \<Rightarrow> (error + luci_add_result) \<times> luci_client \<times> request list" where
  "Luci_addPortForwarding R c config tr =
     (case ensure_auth R c tr of
        (Inl e, c', tr') \<Rightarrow> (Inl e, c', tr')
      | (Inr u, c', tr') \<Rightarrow>
          if \<not> isValidIpAddress (internalIp config) then
            (Inl (Error (''Invalid internal IP address: '' @ internalIp config)), c', tr')
          else if \<not> isValidPort (externalPort config) then
            (Inl (Error (''Invalid external port: '' @ show_int (externalPort config))), c', tr')
          else if \<not> isValidPort (internalPort config) then
            (Inl (Error (''Invalid internal port: '' @ show_int (internalPort config))), c', tr')
          else
            (case name config of
               None \<Rightarrow>
                 (Inl (TypeError ''Cannot read properties of undefined (reading toLowerCase)''),
                  c', tr')
             | Some nm \<Rightarrow>
                 (case uci_steps R c' (addPortForwarding_ops nm config) tr' of
                    (Inl e, c'', tr'') \<Rightarrow> (Inl e, c'', tr'')
                  | (Inr u, c'', tr'') \<Rightarrow>
                      (Inr \<lparr>luci_success = True, luci_uciName = generateUciName nm,
                            luci_message =
                              ''Port forwarding \"'' @ nm @ ''\" added successfully''\<rparr>,
                       c'', tr''))))"

section \<open>Credential codec: text, bytes and hexadecimal\<close>

text \<open>
  A JavaScript string is a sequence of UTF-16 code units; a \<open>Buffer\<close> is a sequence of
  bytes. The codec names three encodings of the runtime: \<open>'utf8'\<close> for the plaintext
  and \<open>'hex'\<close> for ciphertext, initialisation vector and tag.
\<close>

type_synonym jsstring = "16 word list"
type_synonym bytes = "8 word list"

definition is_high_surrogate :: "nat \<Rightarrow> bool" where
  "is_high_surrogate u = (0xD800 \<le> u \<and> u \<le> 0xDBFF)"

definition is_low_surrogate :: "nat \<Rightarrow> bool" where
  "is_low_surrogate u = (0xDC00 \<le> u \<and> u \<le> 0xDFFF)"

definition is_surrogate :: "nat \<Rightarrow> bool" where
  "is_surrogate u = (0xD800 \<le> u \<and> u \<le> 0xDFFF)"

text \<open>
  Code units to code points, as the UTF-8 writer reads a string: a high surrogate followed
  by a low surrogate is one supplementary code point, and a surrogate without its partner
  is written as U+FFFD.
\<close>

fun code_points :: "nat list \<Rightarrow> nat list" where
  "code_points [] = []"
| "code_points [u] = [if is_surrogate u then 0xFFFD else u]"
| "code_points (u # v # us) =
     (if is_high_surrogate u \<and> is_low_surrogate v
      then (0x10000 + (u - 0xD800) * 1024 + (v - 0xDC00)) # code_points us
      else (if is_surrogate u then 0xFFFD else u) # code_points (v # us))"

definition utf8_bytes_of :: "nat \<Rightarrow> nat list" where
  "utf8_bytes_of cp =
     (if cp < 0x80 then [cp]
      else if cp < 0x800 then [0xC0 + cp div 64, 0x80 + cp mod 64]
      else if cp < 0x10000 then [0xE0 + cp div 4096, 0x80 + cp div 64 mod 64, 0x80 + cp mod 64]
      else [0xF0 + cp div 262144, 0x80 + cp div 4096 mod 64, 0x80 + cp div 64 mod 64,
            0x80 + cp mod 64])"

definition utf8_encode :: "jsstring \<Rightarrow> bytes" where
  "utf8_encode s = map of_nat (concat (map utf8_bytes_of (code_points (map unat s))))"

definition is_cont :: "nat \<Rightarrow> bool" where
  "is_cont b = (0x80 \<le> b \<and> b \<le> 0xBF)"

text \<open>
  UTF-8 decoding of a byte sequence into code points. The second byte of a three-byte or
  four-byte sequence has the narrower range that excludes overlong forms, surrogates and
  values beyond U+10FFFF. A byte that cannot start or continue a sequence ends the
  sequence read so far, which is replaced by U+FFFD.
\<close>

fun utf8_code_points :: "nat list \<Rightarrow> nat list" where
  "utf8_code_points [] = []"
| "utf8_code_points (b # bs) =
     (if b < 0x80 then b # utf8_code_points bs
      else if 0xC2 \<le> b \<and> b \<le> 0xDF then
        (case bs of
           c1 # r1 \<Rightarrow>
             if is_cont c1 then ((b - 0xC0) * 64 + (c1 - 0x80)) # utf8_code_points r1
             else 0xFFFD # utf8_code_points bs
         | [] \<Rightarrow> [0xFFFD])
      else if 0xE0 \<le> b \<and> b \<le> 0xEF then
        (case bs of
           c1 # r1 \<Rightarrow>
             if (if b = 0xE0 then 0xA0 else 0x80) \<le> c1 \<and> c1 \<le> (if b = 0xED then 0x9F else 0xBF)
             then (case r1 of
                     c2 # r2 \<Rightarrow>
                       if is_cont c2
                       then ((b - 0xE0) * 4096 + (c1 - 0x80) * 64 + (c2 - 0x80)) # utf8_code_points r2
                       else 0xFFFD # utf8_code_points r1
                   | [] \<Rightarrow> [0xFFFD])
             else 0xFFFD # utf8_code_points bs
         | [] \<Rightarrow> [0xFFFD])
      else if 0xF0 \<le> b \<and> b \<le> 0xF4 then
        (case bs of
           c1 # r1 \<Rightarrow>
             if (if b = 0xF0 then 0x90 else 0x80) \<le> c1 \<and> c1 \<le> (if b = 0xF4 then 0x8F else 0xBF)
             then (case r1 of
                     c2 # r2 \<Rightarrow>
                       if is_cont c2
                       then (case r2 of
                               c3 # r3 \<Rightarrow>
                                 if is_cont c3
                                 then ((b - 0xF0) * 262144 + (c1 - 0x80) * 4096 + (c2 - 0x80) * 64
                                        + (c3 - 0x80)) # utf8_code_points r3
                                 else 0xFFFD # utf8_code_points r2
                             | [] \<Rightarrow> [0xFFFD])
                       else 0xFFFD # utf8_code_points r1
                   | [] \<Rightarrow> [0xFFFD])
             else 0xFFFD # utf8_code_points bs
         | [] \<Rightarrow> [0xFFFD])
      else 0xFFFD # utf8_code_points bs)"

definition code_units_of :: "nat \<Rightarrow> nat list" where
  "code_units_of cp =
     (if cp < 0x10000 then [cp]
      else [0xD800 + (cp - 0x10000) div 1024, 0xDC00 + (cp - 0x10000) mod 1024])"

definition utf8_decode :: "bytes \<Rightarrow> jsstring" where
  "utf8_decode bs = map of_nat (concat (map code_units_of (utf8_code_points (map unat bs))))"

text \<open>A Unicode scalar value: a code point that is not a surrogate.\<close>

definition scalar :: "nat \<Rightarrow> bool" where
  "scalar cp = (cp < 0x110000 \<and> \<not> is_surrogate cp)"

text \<open>A string without unpaired surrogates.\<close>

fun well_formed_units :: "nat list \<Rightarrow> bool" where
  "well_formed_units [] = True"
| "well_formed_units [u] = (\<not> is_surrogate u)"
| "well_formed_units (u # v # us) =
     (if is_high_surrogate u then is_low_surrogate v \<and> well_formed_units us
      else \<not> is_low_surrogate u \<and> well_formed_units (v # us))"

definition well_formed :: "jsstring \<Rightarrow> bool" where
  "well_formed s = well_formed_units (map unat s)"

text \<open>
  \<open>buf.toString('hex')\<close>, and the decoding of a hex string, which stops at the first
  pair that is not two hexadecimal digits.
\<close>

definition hex_char :: "nat \<Rightarrow> char" where
  "hex_char n = ''0123456789abcdef'' ! n"

definition hex_encode :: "bytes \<Rightarrow> string" where
  "hex_encode bs = concat (map (\<lambda>b. [hex_char (unat b div 16), hex_char (unat b mod 16)]) bs)"

fun hex_decode :: "string \<Rightarrow> bytes" where
  "hex_decode (c1 # c2 # cs) =
     (if is_hex_digit c1 \<and> is_hex_digit c2
      then of_nat (16 * hex_digit_val c1 + hex_digit_val c2) # hex_decode cs
      else [])"
| "hex_decode cs = []"

section \<open>Credential codec: key, cipher, \<open>encrypt\<close> and \<open>decrypt\<close>\<close>

text \<open>
  The primitives of the \<open>crypto\<close> module are parameters: the key derivation
  \<open>scryptSync\<close>, and AES-256-GCM given by its key stream (GCM encrypts in counter
  mode: byte \<open>i\<close> of the data is combined by XOR with byte \<open>i\<close> of a stream fixed by
  key and initialisation vector) and by its 128-bit tag over key, vector and ciphertext.
\<close>

record crypto =
  scryptSync :: "bytes \<Rightarrow> bytes \<Rightarrow> nat \<Rightarrow> bytes"
  gcm_keystream :: "bytes \<Rightarrow> bytes \<Rightarrow> nat \<Rightarrow> 8 word"
  gcm_tag :: "bytes \<Rightarrow> bytes \<Rightarrow> bytes \<Rightarrow> 128 word"

record process_env =
  ROUTER_ENCRYPTION_KEY :: "string option"
  os_hostname :: string
  os_arch :: string

definition IV_LENGTH :: nat where "IV_LENGTH = 16"
definition TAG_LENGTH :: nat where "TAG_LENGTH = 16"
definition KEY_LENGTH :: nat where "KEY_LENGTH = 32"

text \<open>Environment strings are taken as their bytes.\<close>

definition string_bytes :: "string \<Rightarrow> bytes" where
  "string_bytes s = map (\<lambda>c. of_nat (of_char c)) s"

definition getEncryptionKey :: "crypto \<Rightarrow> process_env \<Rightarrow> bytes" where
  "getEncryptionKey C env =
     (case ROUTER_ENCRYPTION_KEY env of
        Some envKey \<Rightarrow>
          if envKey \<noteq> [] then
            (if length envKey = 32 then string_bytes envKey
             else scryptSync C (string_bytes envKey) (string_bytes ''router-salt'') KEY_LENGTH)
          else scryptSync C (string_bytes (os_hostname env @ os_arch env))
                 (string_bytes ''portracker-router-key'') KEY_LENGTH
      | None \<Rightarrow>
          scryptSync C (string_bytes (os_hostname env @ os_arch env))
            (string_bytes ''portracker-router-key'') KEY_LENGTH)"

text \<open>The bytes of a 128-bit value, most significant first.\<close>

definition word_bytes :: "128 word \<Rightarrow> bytes" where
  "word_bytes w = map (\<lambda>i. ucast (drop_bit (8 * (15 - i)) w)) [0..<16]"

fun xor_stream :: "(nat \<Rightarrow> 8 word) \<Rightarrow> nat \<Rightarrow> bytes \<Rightarrow> bytes" where
  "xor_stream f i [] = []"
| "xor_stream f i (b # bs) = (b XOR f i) # xor_stream f (Suc i) bs"

record encrypted_data =
  encrypted :: string
  iv :: string
  tag :: string

text \<open>
  \<open>encrypt\<close>. \<open>createCipheriv\<close> throws unless the key has 32 bytes and the vector is
  not empty; the \<open>catch\<close> turns every error into "Failed to encrypt data". The
  sixteen bytes of \<open>randomBytes(IV_LENGTH)\<close> are the argument \<open>rnd\<close>.
\<close>

definition encrypt :: "crypto \<Rightarrow> process_env \<Rightarrow> 128 word \<Rightarrow> jsstring \<Rightarrow> error + encrypted_data" where
  "encrypt C env rnd plaintext =
     (if plaintext = [] then Inl (Error ''Cannot encrypt empty string'')
      else
        (let key = getEncryptionKey C env;
             ivb = word_bytes rnd
         in if length key \<noteq> 32 \<or> ivb = [] then Inl (Error ''Failed to encrypt data'')
            else
              (let ct = xor_stream (gcm_keystream C key ivb) 0 (utf8_encode plaintext)
               in Inr \<lparr>encrypted = hex_encode ct,
                       iv = hex_encode ivb,
                       tag = hex_encode (word_bytes (gcm_tag C key ivb ct))\<rparr>)))"

text \<open>
  \<open>decrypt\<close>. \<open>Buffer.from(s, 'hex')\<close> decodes vector and tag up to the first pair
  that is not hexadecimal. \<open>setAuthTag\<close> accepts a tag of 4, 8 or 12 to 16 bytes; no
  \<open>authTagLength\<close> is given to \<open>createDecipheriv\<close> and \<open>TAG_LENGTH\<close> is not
  used. \<open>update(data, 'hex')\<close> throws on a string of odd length, and \<open>final\<close> throws
  unless the tag given equals the tag computed, cut to the length of the tag given.
\<close>

definition decrypt :: "crypto \<Rightarrow> process_env \<Rightarrow> string \<Rightarrow> string \<Rightarrow> string \<Rightarrow> error + jsstring" where
  "decrypt C env encryptedData ivhex taghex =
     (if encryptedData = [] \<or> ivhex = [] \<or> taghex = []
      then Inl (Error ''Missing encryption parameters'')
      else
        (let key = getEncryptionKey C env;
             ivb = hex_decode ivhex;
             tagb = hex_decode taghex;
             ct = hex_decode encryptedData
         in if length key \<noteq> 32 \<or> ivb = [] then Inl (Error ''Failed to decrypt data'')
            else if length tagb \<notin> {4, 8, 12, 13, 14, 15, 16}
              then Inl (Error ''Failed to decrypt data'')
            else if odd (length encryptedData) then Inl (Error ''Failed to decrypt data'')
            else if take (length tagb) (word_bytes (gcm_tag C key ivb ct)) \<noteq> tagb
              then Inl (Error ''Failed to decrypt data'')
            else Inr (utf8_decode (xor_stream (gcm_keystream C key ivb) 0 ct))))"

text \<open>\<open>decrypt(encrypt(p))\<close>: the triple returned by \<open>encrypt\<close>, passed to \<open>decrypt\<close>.\<close>

definition decrypt_after_encrypt ::
  "crypto \<Rightarrow> process_env \<Rightarrow> 128 word \<Rightarrow> jsstring \<Rightarrow> error + jsstring" where
  "decrypt_after_encrypt C env rnd p =
     (case encrypt C env rnd p of
        Inl e \<Rightarrow> Inl e
      | Inr d \<Rightarrow> decrypt C env (encrypted d) (iv d) (tag d))"

text \<open>A stand-in for the primitives and an environment, for evaluation.\<close>

definition toy_crypto :: crypto where
  "toy_crypto =
     \<lparr>scryptSync = (\<lambda>pw salt n. replicate n 7),
      gcm_keystream = (\<lambda>key ivb i. of_nat (i + 1) + hd key),
      gcm_tag = (\<lambda>key ivb ct. of_nat (length ct) + 42)\<rparr>"

definition dev_env :: process_env where
  "dev_env = \<lparr>ROUTER_ENCRYPTION_KEY = None, os_hostname = ''host'', os_arch = ''x64''\<rparr>"

text \<open>
  A second stand-in whose tag function returns sixteen distinct bytes, so that a tag cut to
  fifteen bytes can be told from the whole tag.
\<close>

definition sample_crypto :: crypto where
  "sample_crypto =
     \<lparr>scryptSync = (\<lambda>pw salt n. replicate n 7),
      gcm_keystream = (\<lambda>key ivb i. of_nat (i + 1) + hd key),
      gcm_tag = (\<lambda>key ivb ct. 0xA1B2C3D4E5F60718293A4B5C6D7E8F90 + of_nat (length ct))\<rparr>"

section \<open>Concrete routers, clients and rules\<close>

text \<open>
  \<open>accept_all\<close> answers every command with exit code 0 and every RPC request with a
  successful JSON body; \<open>dead_router\<close> refuses every connection.
\<close>

definition accept_all :: router where
  "accept_all =
     \<lparr>ssh_reply_of = (\<lambda>h c. Closed 0 [] []),
      http_reply_of = (\<lambda>h r. Response True 200 ''OK''
                         (Some \<lparr>body_error = JNull, body_result = JStr ''token''\<rparr>))\<rparr>"

definition dead_router :: router where
  "dead_router =
     \<lparr>ssh_reply_of = (\<lambda>h c. SshError ''connect ECONNREFUSED''),
      http_reply_of = (\<lambda>h r. FetchError ''fetch failed'')\<rparr>"

definition invalid_ip_rule :: forward_config where
  "invalid_ip_rule =
     \<lparr>name = None, protocol = None, externalPort = 80, internalIp = ''999.1.1.1'',
      internalPort = 80, src = None, dest = None, target = None\<rparr>"

definition web_rule :: forward_config where
  "web_rule =
     \<lparr>name = Some ''web'', protocol = Some ''tcp'', externalPort = 8080,
      internalIp = ''10.0.0.5'', internalPort = 80, src = None, dest = None, target = None\<rparr>"

definition fresh_luci :: luci_client where
  "fresh_luci = \<lparr>luci_username = ''root'', luci_password = ''secret'', luci_authToken = JNull\<rparr>"

text \<open>A request that renames a section, over either transport.\<close>

fun is_rename :: "request \<Rightarrow> bool" where
  "is_rename (Exec command) = prefix ''uci rename'' command"
| "is_rename (Post g m ps h) = (m = JStr ''rename'')"

text \<open>Clients and routers for the mode selector.\<close>

fun is_exec :: "request \<Rightarrow> bool" where
  "is_exec (Exec command) = True"
| "is_exec (Post g m ps h) = False"

definition auto_client :: client where
  "auto_client =
     \<lparr>hostname = ''192.168.1.1'', port = 22, baseUrl = ''http://192.168.1.1:22'',
      connectionMode = ''auto'', rpcClient = None, sshClient = None,
      username = ''root'', password = ''secret'', timeout = 10000\<rparr>"

definition auto_config :: client_config where
  "auto_config = \<lparr>cfg_url = ''192.168.1.1'', cfg_port = None, cfg_username = ''root'',
     cfg_password = ''secret'', cfg_connectionMode = None, cfg_timeout = None\<rparr>"

definition ssh_later :: router where
  "ssh_later =
     \<lparr>ssh_reply_of = (\<lambda>h c.
        if h = [] then SshError ''connect ECONNREFUSED'' else Closed 0 ''OpenWrt'' []),
      http_reply_of = (\<lambda>h r. Response True 200 ''OK''
                         (Some \<lparr>body_error = JNull, body_result = JStr ''token''\<rparr>))\<rparr>"

definition login_only :: router where
  "login_only =
     \<lparr>ssh_reply_of = (\<lambda>h c. SshError ''connect ECONNREFUSED''),
      http_reply_of = (\<lambda>h r. case r of
          Post g m ps hdr \<Rightarrow>
            if g = ''auth'' then Response True 200 ''OK''
                         (Some \<lparr>body_error = JNull, body_result = JStr ''token''\<rparr>)
            else Response False 404 ''Not Found'' None
        | Exec c \<Rightarrow> FetchError ''fetch failed'')\<rparr>"

text \<open>
  The RPC client that \<open>initialize\<close> probes, the outcome "the RPC probe succeeds and the
  login repeated after it is accepted", and the login request.
\<close>

definition rpc_of :: "client \<Rightarrow> rpc_client" where
  "rpc_of c = (case rpcClient c of None \<Rightarrow> new_OpenWrtRpcClient c | Some r \<Rightarrow> r)"

definition rpc_probe_accepted :: "router \<Rightarrow> rpc_client \<Rightarrow> request list \<Rightarrow> bool" where
  "rpc_probe_accepted R rc tr =
     (case OpenWrtRpcClient_testConnection R rc tr of
        (res, rc1, tr2) \<Rightarrow> success res \<and> \<not> isl (fst (OpenWrtRpcClient_authenticate R rc1 tr2)))"

definition login_request :: "rpc_client \<Rightarrow> request" where
  "login_request rc =
     Post ''auth'' (JStr ''login'') (JArr [JStr (rpc_username rc), JStr (rpc_password rc)]) None"

text \<open>The replies that make the two requests of the RPC probe succeed.\<close>

fun login_accepted :: "http_reply \<Rightarrow> bool" where
  "login_accepted (Response ok status statusText (Some d)) = (ok \<and> \<not> truthy (body_error d))"
| "login_accepted r = False"

fun call_answered :: "http_reply \<Rightarrow> bool" where
  "call_answered (Response ok status statusText (Some d)) = ok"
| "call_answered r = False"

definition ssh_bound :: client where
  "ssh_bound = auto_client\<lparr>connectionMode := ''ssh'', sshClient := Some (new_SshUciClient auto_client)\<rparr>"

definition rpc_bound :: client where
  "rpc_bound = auto_client\<lparr>connectionMode := ''rpc'',
      rpcClient := Some \<lparr>rpc_username = ''root'', rpc_password = ''secret'', authToken = JStr ''token''\<rparr>\<rparr>"

definition authed_luci :: luci_client where
  "authed_luci =
     \<lparr>luci_username = ''root'', luci_password = ''secret'', luci_authToken = JStr ''token''\<rparr>"




text \<open>
  A router with one redirect section, \<open>web\<close>. It answers the listing command and the
  reads of the first eight options of the section; the answer to the read of the option
  \<open>enabled\<close> is the parameter. Every other command is refused.
\<close>

definition web_router :: "ssh_reply \<Rightarrow> router" where
  "web_router enabled_reply =
     \<lparr>ssh_reply_of = (\<lambda>h c.
        if c = ''uci show firewall 2>/dev/null | grep '' @ [CHR 0x27] @ ''=redirect'' @ [CHR 0x27]
          then Closed 0 (''firewall.web=redirect'' @ [CHR 0x0A]) []
        else if c = ''uci get firewall.web.name 2>/dev/null'' then Closed 0 (''web'' @ [CHR 0x0A]) []
        else if c = ''uci get firewall.web.target 2>/dev/null'' then Closed 0 (''DNAT'' @ [CHR 0x0A]) []
        else if c = ''uci get firewall.web.src 2>/dev/null'' then Closed 0 (''wan'' @ [CHR 0x0A]) []
        else if c = ''uci get firewall.web.dest 2>/dev/null'' then Closed 0 (''lan'' @ [CHR 0x0A]) []
        else if c = ''uci get firewall.web.proto 2>/dev/null'' then Closed 0 (''tcp'' @ [CHR 0x0A]) []
        else if c = ''uci get firewall.web.src_dport 2>/dev/null'' then Closed 0 (''8080'' @ [CHR 0x0A]) []
        else if c = ''uci get firewall.web.dest_ip 2>/dev/null''
          then Closed 0 (''192.168.1.10'' @ [CHR 0x0A]) []
        else if c = ''uci get firewall.web.dest_port 2>/dev/null'' then Closed 0 (''80'' @ [CHR 0x0A]) []
        else if c = ''uci get firewall.web.enabled 2>/dev/null'' then enabled_reply
        else SshError ''unexpected command''),
      http_reply_of = (\<lambda>h r. FetchError ''fetch failed'')\<rparr>"

text \<open>The commands of a listing on \<open>web_router\<close>, in order.\<close>

definition web_listing_trace :: "request list" where
  "web_listing_trace =
     [Exec (''uci show firewall 2>/dev/null | grep '' @ [CHR 0x27] @ ''=redirect'' @ [CHR 0x27]),
      Exec ''uci get firewall.web.name 2>/dev/null'',
      Exec ''uci get firewall.web.target 2>/dev/null'',
      Exec ''uci get firewall.web.src 2>/dev/null'',
      Exec ''uci get firewall.web.dest 2>/dev/null'',
      Exec ''uci get firewall.web.proto 2>/dev/null'',
      Exec ''uci get firewall.web.src_dport 2>/dev/null'',
      Exec ''uci get firewall.web.dest_ip 2>/dev/null'',
      Exec ''uci get firewall.web.dest_port 2>/dev/null'',
      Exec ''uci get firewall.web.enabled 2>/dev/null'']"

text \<open>The rule of the section \<open>web\<close>, with the given flag.\<close>

definition web_listed :: "bool \<Rightarrow> redirect_rule" where
  "web_listed en =
     \<lparr>rule_id = ''web'', rule_name = ''web'', rule_target = ''DNAT'', rule_src = ''wan'',
      rule_dest = ''lan'', rule_protocol = ''tcp'', rule_external_port = 8080,
      rule_internal_ip = ''192.168.1.10'', rule_internal_port = 80, rule_enabled = en\<rparr>"

text \<open>
  A router whose answer to the \<open>get_all\<close> request of an authenticated client holds three
  redirect sections: one without the option \<open>enabled\<close>, one where it is "0" and one
  where it is the empty string; and a section of another type.
\<close>

definition sections_router :: router where
  "sections_router =
     \<lparr>ssh_reply_of = (\<lambda>h c. SshError ''connect ECONNREFUSED''),
      http_reply_of = (\<lambda>h r.
        if r = Post ''uci'' (JStr ''get_all'') (JArr [JStr ''firewall'']) (Some (JStr ''token''))
        then Response True 200 ''OK''
          (Some \<lparr>body_error = JNull,
                 body_result = JObj
                   [(''cfg0a92bd'', JObj [(''.type'', JStr ''redirect'')]),
                    (''cfg0b92bd'', JObj [(''.type'', JStr ''redirect''), (''enabled'', JStr ''0'')]),
                    (''cfg0c92bd'', JObj [(''.type'', JStr ''redirect''), (''enabled'', JStr [])]),
                    (''cfg0d3837'', JObj [(''.type'', JStr ''rule''), (''enabled'', JStr ''0'')])]\<rparr>)
        else FetchError ''fetch failed'')\<rparr>"

section \<open>Facts about the address resolver\<close>

text \<open>\<open>split\<close> never returns an empty array, and \<open>parseRouterUrl\<close> never throws.\<close>

lemma split_from_nonempty: "split_from sep acc s \<noteq> []"
  by (induction sep acc s rule: split_from.induct) simp_all

lemma split_from_two:
  "sep \<noteq> [] \<Longrightarrow> includes_str sep s \<Longrightarrow> 2 \<le> length (split_from sep acc s)"
proof (induction sep acc s rule: split_from.induct)
  case (1 sep acc)
  then show ?case by simp
next
  case (2 sep acc c cs)
  show ?case
  proof (cases "prefix sep (c # cs)")
    case True
    with "2.prems"(1) split_from_nonempty [of sep "[]" "drop (length sep) (c # cs)"]
    show ?thesis by (cases "split_from sep [] (drop (length sep) (c # cs))") simp_all
  next
    case False
    with "2.prems" have "includes_str sep cs" by simp
    with "2.IH"(2) "2.prems"(1) False show ?thesis by simp
  qed
qed

lemma parseRouterUrl_total: "parseRouterUrl url \<noteq> None"
proof (cases "includes_str ''://'' url")
  case True
  then have "2 \<le> length (split_str ''://'' url)"
    unfolding split_str_def by (intro split_from_two) simp_all
  then obtain a b r where "split_str ''://'' url = a # b # r"
    by (cases "split_str ''://'' url"; cases "tl (split_str ''://'' url)") auto
  with True show ?thesis by (simp add: parseRouterUrl_def split: option.splits)
next
  case False
  then show ?thesis by (simp add: parseRouterUrl_def split: option.splits)
qed

section \<open>Facts about \<open>exec\<close> and runs of commands\<close>

lemma exec_snd: "snd (exec R c tr) = tr @ [Exec c]"
  by (simp add: exec_def)

lemma exec_cases:
  "exec R c tr = (Inr o1, tr') \<Longrightarrow>
    tr' = tr @ [Exec c] \<and> (\<exists>out err. ssh_reply_of R tr c = Closed 0 out err \<and> o1 = trim out)"
  by (cases "ssh_reply_of R tr c") (auto simp: exec_def split: if_splits)

lemma exec_failed:
  "\<not> exec_ok (ssh_reply_of R tr c) \<Longrightarrow> \<exists>e. exec R c tr = (Inl e, tr @ [Exec c])"
  by (cases "ssh_reply_of R tr c") (auto simp: exec_def)

lemma exec_accepted:
  "exec_ok (ssh_reply_of R tr c) \<Longrightarrow> \<exists>out. exec R c tr = (Inr out, tr @ [Exec c])"
  by (cases "ssh_reply_of R tr c") (auto simp: exec_def)

lemma exec_all_prefix: "prefix tr (snd (exec_all R cs tr))"
proof (induction cs arbitrary: tr)
  case Nil
  then show ?case by simp
next
  case (Cons c cs)
  have "prefix (tr @ [Exec c]) (snd (exec_all R cs (tr @ [Exec c])))" by (rule Cons.IH)
  then have "prefix tr (snd (exec_all R cs (tr @ [Exec c])))"
    by (metis prefix_order.trans prefixI)
  then show ?case
    using exec_snd [of R c tr] by (auto split: prod.splits sum.splits)
qed

lemma exec_all_Inr:
  "exec_all R cs tr = (Inr outs, tr') \<Longrightarrow>
     tr' = tr @ map Exec cs \<and> length outs = length cs \<and>
     (\<forall>k < length cs. \<exists>out err.
         ssh_reply_of R (tr @ map Exec (take k cs)) (cs ! k) = Closed 0 out err
         \<and> outs ! k = trim out)"
proof (induction cs arbitrary: tr outs tr')
  case Nil
  then show ?case by simp
next
  case (Cons c cs)
  from Cons.prems obtain o1 t1 where e1: "exec R c tr = (Inr o1, t1)"
    by (auto split: prod.splits sum.splits)
  from Cons.prems e1 obtain os where e2: "exec_all R cs t1 = (Inr os, tr')"
    and outs: "outs = o1 # os"
    by (auto split: prod.splits sum.splits)
  from exec_cases [OF e1] obtain out err where t1: "t1 = tr @ [Exec c]"
    and r1: "ssh_reply_of R tr c = Closed 0 out err" and o1: "o1 = trim out" by blast
  from Cons.IH [OF e2] have tr': "tr' = t1 @ map Exec cs" and len: "length os = length cs"
    and rest: "\<forall>k<length cs. \<exists>out err.
         ssh_reply_of R (t1 @ map Exec (take k cs)) (cs ! k) = Closed 0 out err
         \<and> os ! k = trim out"
    by blast+
  have "\<exists>out err. ssh_reply_of R (tr @ map Exec (take k (c # cs))) ((c # cs) ! k) = Closed 0 out err
          \<and> outs ! k = trim out" if "k < length (c # cs)" for k
  proof (cases k)
    case 0
    then show ?thesis using r1 o1 outs by simp
  next
    case (Suc j)
    with that have "j < length cs" by simp
    with rest obtain out' err' where
      "ssh_reply_of R (t1 @ map Exec (take j cs)) (cs ! j) = Closed 0 out' err'"
      "os ! j = trim out'"
      by blast
    then show ?thesis using Suc outs t1 by simp
  qed
  then show ?case using tr' t1 len outs by simp
qed

lemma exec_all_accepting:
  "\<forall>h c. exec_ok (ssh_reply_of R h c) \<Longrightarrow>
     \<exists>outs. exec_all R cs tr = (Inr outs, tr @ map Exec cs)"
proof (induction cs arbitrary: tr)
  case Nil
  then show ?case by simp
next
  case (Cons c cs)
  from Cons.prems have "exec_ok (ssh_reply_of R tr c)" by blast
  then obtain out where e: "exec R c tr = (Inr out, tr @ [Exec c])"
    using exec_accepted by blast
  from Cons.IH [OF Cons.prems, of "tr @ [Exec c]"] obtain os where
    "exec_all R cs (tr @ [Exec c]) = (Inr os, (tr @ [Exec c]) @ map Exec cs)" by blast
  with e show ?case by simp
qed

lemma generateUciName_nonempty: "s \<noteq> [] \<Longrightarrow> generateUciName s \<noteq> []"
  by (simp add: generateUciName_def toLowerCase_def)

lemma or_default_nonempty: "d \<noteq> [] \<Longrightarrow> or_default x d \<noteq> []"
  by (simp add: or_default_def split: option.splits)

lemmas eval_strings = trim_def or_default_def generateUciName_def toLowerCase_def
  to_lower_char_def uci_safe_char_def set_cmd_def quote_def show_int_def show_nat.simps
  digit_char_def

lemmas eval_ipv4 = isValidIpAddress_def rx_test_def ipv4Regex_def octetRx_def rx_lit_def

section \<open>Facts about the listing operations\<close>

lemma read_rules_prefix: "prefix tr (snd (read_rules R lines tr))"
proof (induction lines arbitrary: tr)
  case Nil
  then show ?case by simp
next
  case (Cons line lines)
  show ?case
  proof (cases "match_redirect_line line")
    case None
    then show ?thesis using Cons.IH by simp
  next
    case (Some u)
    obtain res t1 where e: "exec_all R (map (get_cmd u) redirect_fields) tr = (res, t1)"
      by (cases "exec_all R (map (get_cmd u) redirect_fields) tr")
    show ?thesis
    proof (cases res)
      case (Inl err)
      have "prefix tr t1" using exec_all_prefix [of tr R "map (get_cmd u) redirect_fields"] e by simp
      then show ?thesis using Some e Inl by simp
    next
      case (Inr outs)
      with e exec_all_Inr have t1: "t1 = tr @ map Exec (map (get_cmd u) redirect_fields)" by blast
      have "prefix t1 (snd (read_rules R lines t1))" by (rule Cons.IH)
      then have "prefix tr (snd (read_rules R lines t1))" using t1 by (metis prefix_order.trans prefixI)
      then show ?thesis using Some e Inr by (auto split: prod.splits sum.splits)
    qed
  qed
qed

lemma read_rules_enabled:
  "read_rules R lines tr = (Inr rules, tr') \<Longrightarrow> r \<in> set rules \<Longrightarrow>
   \<exists>h out err. prefix tr h \<and> prefix (h @ [Exec (get_cmd (rule_id r) ''enabled'')]) tr'
      \<and> ssh_reply_of R h (get_cmd (rule_id r) ''enabled'') = Closed 0 out err
      \<and> (rule_enabled r \<longleftrightarrow> trim out \<noteq> ''0'')"
proof (induction lines arbitrary: tr rules)
  case Nil
  then show ?case by simp
next
  case (Cons line lines)
  show ?case
  proof (cases "match_redirect_line line")
    case None
    with Cons.prems have "read_rules R lines tr = (Inr rules, tr')" by simp
    from Cons.IH [OF this Cons.prems(2)] show ?thesis .
  next
    case (Some u)
    let ?cmds = "map (get_cmd u) redirect_fields"
    from Cons.prems(1) Some obtain outs t1 rs where
      e: "exec_all R ?cmds tr = (Inr outs, t1)" and
      rr: "read_rules R lines t1 = (Inr rs, tr')" and
      rules: "rules = mk_rule u outs # rs"
      by (auto split: prod.splits sum.splits)
    from exec_all_Inr [OF e] have t1: "t1 = tr @ map Exec ?cmds"
      and k: "\<forall>k<length ?cmds. \<exists>out err.
         ssh_reply_of R (tr @ map Exec (take k ?cmds)) (?cmds ! k) = Closed 0 out err \<and> outs ! k = trim out"
      by blast+
    from Cons.prems(2) rules consider "r = mk_rule u outs" | "r \<in> set rs" by auto
    then show ?thesis
    proof cases
      case 1
      have "8 < length ?cmds" by (simp add: redirect_fields_def)
      with k obtain out err where
        rep: "ssh_reply_of R (tr @ map Exec (take 8 ?cmds)) (?cmds ! 8) = Closed 0 out err"
        and o8: "outs ! 8 = trim out" by blast
      have c8: "?cmds ! 8 = get_cmd u ''enabled''" by (simp add: redirect_fields_def)
      have split: "?cmds = take 8 ?cmds @ [get_cmd u ''enabled'']" by (simp add: redirect_fields_def)
      let ?h = "tr @ map Exec (take 8 ?cmds)"
      have "t1 = ?h @ [Exec (get_cmd u ''enabled'')]"
        unfolding t1 by (subst split) simp
      moreover have "prefix t1 tr'" using read_rules_prefix [of t1 R lines] rr by simp
      ultimately have p: "prefix (?h @ [Exec (get_cmd u ''enabled'')]) tr'" by simp
      have id: "rule_id r = u" and en: "rule_enabled r \<longleftrightarrow> outs ! 8 \<noteq> ''0''"
        using 1 by (simp_all add: mk_rule_def)
      show ?thesis
        using p rep c8 o8 id en by (intro exI [of _ ?h] exI [of _ out] exI [of _ err]) simp
    next
      case 2
      from Cons.IH [OF rr 2] obtain h out err where
        "prefix t1 h" "prefix (h @ [Exec (get_cmd (rule_id r) ''enabled'')]) tr'"
        "ssh_reply_of R h (get_cmd (rule_id r) ''enabled'') = Closed 0 out err"
        "rule_enabled r \<longleftrightarrow> trim out \<noteq> ''0''" by blast
      moreover from \<open>prefix t1 h\<close> t1 have "prefix tr h" by (metis prefix_order.trans prefixI)
      ultimately show ?thesis by blast
    qed
  qed
qed

lemma getRedirects_enabled:
  assumes "fst (getRedirects R tr) = Inr rules" "r \<in> set rules"
  shows "\<exists>h out err. prefix (h @ [Exec (get_cmd (rule_id r) ''enabled'')]) (snd (getRedirects R tr))
      \<and> ssh_reply_of R h (get_cmd (rule_id r) ''enabled'') = Closed 0 out err
      \<and> (rule_enabled r \<longleftrightarrow> trim out \<noteq> ''0'')"
proof -
  obtain res t where t: "getRedirects_try R tr = (res, t)" by (cases "getRedirects_try R tr")
  with assms have res: "res = Inr rules"
    by (cases res) (auto simp: getRedirects_def)
  with t have g: "snd (getRedirects R tr) = t" by (simp add: getRedirects_def)
  from t res assms(2) obtain outp t0 where
    "read_rules R (split_str [CHR 0x0A] outp) t0 = (Inr rules, t)"
    by (auto simp: getRedirects_try_def split: prod.splits sum.splits if_splits)
  from read_rules_enabled [OF this assms(2)] show ?thesis unfolding g by blast
qed

lemma getRedirects_never_fails: "fst (getRedirects R tr) \<noteq> Inl e"
  by (auto simp: getRedirects_def split: prod.splits sum.splits)

lemma getRedirects_swallow:
  "fst (getRedirects_try R tr) = Inl e \<Longrightarrow> fst (getRedirects R tr) = Inr []"
  by (auto simp: getRedirects_def split: prod.splits sum.splits)

lemma getRedirects_unreachable:
  "\<not> exec_ok (ssh_reply_of R tr show_redirects_cmd) \<Longrightarrow>
     getRedirects R tr = (Inr [], tr @ [Exec show_redirects_cmd])"
  using exec_failed [of R tr show_redirects_cmd]
  by (auto simp: getRedirects_def getRedirects_try_def)

lemma collect_redirects_enabled:
  "collect_redirects es = Inr rules \<Longrightarrow> lr \<in> set rules \<Longrightarrow>
   \<exists>sect. (uciName lr, sect) \<in> set es
      \<and> (enabled lr \<longleftrightarrow> get_prop sect ''enabled'' \<noteq> Some (JStr ''0''))"
proof (induction es arbitrary: rules)
  case Nil
  then show ?case by simp
next
  case (Cons a es)
  obtain key sect where a: "a = (key, sect)" by (cases a)
  from Cons.prems(1) a obtain rs where rs: "collect_redirects es = Inr rs"
    and rules: "rules = (if get_prop sect ''.type'' = Some (JStr ''redirect'')
                 then mk_luci_rule key sect # rs else rs)"
    by (auto split: if_splits sum.splits)
  from Cons.prems(2) rules consider "lr = mk_luci_rule key sect" | "lr \<in> set rs"
    by (auto split: if_splits)
  then show ?case
  proof cases
    case 1
    then show ?thesis using a by (auto simp: mk_luci_rule_def)
  next
    case 2
    from Cons.IH [OF rs 2] show ?thesis by auto
  qed
qed

lemma Luci_callRpc_Inr:
  "Luci_callRpc R c g m ps tr = (Inr response, tr') \<Longrightarrow>
     \<exists>status statusText.
       http_reply_of R tr (Post g m ps (luci_header c)) = Response True status statusText (Some response)"
  by (cases "http_reply_of R tr (Post g m ps (luci_header c))")
     (auto simp: Luci_callRpc_def Let_def split: if_splits option.splits)

lemma Luci_uci_Inr:
  "Luci_uci R c command ps tr = (Inr response, c', tr') \<Longrightarrow>
     \<exists>h hdr status statusText.
       http_reply_of R h (Post ''uci'' (JStr command) (JArr ps) hdr)
         = Response True status statusText (Some response)"
  by (auto simp: Luci_uci_def split: prod.splits sum.splits dest!: Luci_callRpc_Inr)

lemma Luci_getPortForwardings_enabled:
  assumes "fst (Luci_getPortForwardings R c tr) = Inr rules" "lr \<in> set rules"
  shows "\<exists>h hdr status statusText response sect.
       http_reply_of R h (Post ''uci'' (JStr ''get_all'') (JArr [JStr ''firewall'']) hdr)
         = Response True status statusText (Some response)
     \<and> (uciName lr, sect) \<in> set (entries (body_result response))
     \<and> (enabled lr \<longleftrightarrow> get_prop sect ''enabled'' \<noteq> Some (JStr ''0''))"
proof -
  from assms(1) obtain c1 t1 response c2 t2 where
    u: "Luci_uci R c1 ''get_all'' [JStr ''firewall''] t1 = (Inr response, c2, t2)" and
    cr: "collect_redirects (if truthy (body_result response) then entries (body_result response) else [])
           = Inr rules"
    by (auto simp: Luci_getPortForwardings_def split: prod.splits sum.splits if_splits)
  from collect_redirects_enabled [OF cr assms(2)] obtain sect where
    s: "(uciName lr, sect) \<in> set (entries (body_result response))"
       "enabled lr \<longleftrightarrow> get_prop sect ''enabled'' \<noteq> Some (JStr ''0'')"
    by (auto split: if_splits)
  from Luci_uci_Inr [OF u] s show ?thesis by blast
qed

section \<open>Facts about the probes\<close>

lemma auto_client_constructed: "new_OpenWrtClient auto_config = Some auto_client"
  by (simp add: new_OpenWrtClient_def auto_config_def auto_client_def parseRouterUrl_def
      mk_parsed_def num_or_def or_default_def DEFAULT_TIMEOUT_def show_nat.simps digit_char_def
      is_digit_def)

lemma ssh_probe_ok:
  "exec_ok (ssh_reply_of R tr release_cmd) \<Longrightarrow>
     \<exists>m. SshUciClient_testConnection R tr = (\<lparr>success = True, message = m\<rparr>, tr @ [Exec release_cmd])"
  using exec_accepted [of R tr release_cmd] by (auto simp: SshUciClient_testConnection_def)

lemma ssh_probe_failed:
  "\<not> exec_ok (ssh_reply_of R tr release_cmd) \<Longrightarrow>
     \<exists>m. SshUciClient_testConnection R tr = (\<lparr>success = False, message = m\<rparr>, tr @ [Exec release_cmd])"
  using exec_failed [of R tr release_cmd] by (auto simp: SshUciClient_testConnection_def)

lemma authenticate_trace:
  "snd (snd (OpenWrtRpcClient_authenticate R rc tr)) = tr @ [login_request rc]"
  by (auto simp: OpenWrtRpcClient_authenticate_def login_request_def Let_def
      split: http_reply.splits option.splits)

lemma authenticate_credentials:
  "rpc_username (fst (snd (OpenWrtRpcClient_authenticate R rc tr))) = rpc_username rc \<and>
   rpc_password (fst (snd (OpenWrtRpcClient_authenticate R rc tr))) = rpc_password rc"
  by (auto simp: OpenWrtRpcClient_authenticate_def Let_def split: http_reply.splits option.splits)

lemma callRpc_trace:
  "\<exists>req. snd (OpenWrtRpcClient_callRpc R rc m ps tr) = tr @ [req] \<and> \<not> is_exec req"
  by (auto simp: OpenWrtRpcClient_callRpc_def Let_def)

lemma uci_trace:
  "\<exists>req. snd (OpenWrtRpcClient_uci R rc m ps tr) = tr @ [req] \<and> \<not> is_exec req"
  unfolding OpenWrtRpcClient_uci_def by (rule callRpc_trace)

lemma rpc_probe_trace:
  "\<exists>reqs. snd (snd (OpenWrtRpcClient_testConnection R rc tr)) = tr @ reqs \<and> filter is_exec reqs = []
     \<and> (success (fst (OpenWrtRpcClient_testConnection R rc tr)) \<longrightarrow> length reqs = 2)
     \<and> rpc_username (fst (snd (OpenWrtRpcClient_testConnection R rc tr))) = rpc_username rc
     \<and> rpc_password (fst (snd (OpenWrtRpcClient_testConnection R rc tr))) = rpc_password rc"
proof -
  obtain r1 c1 t1 where a: "OpenWrtRpcClient_authenticate R rc tr = (r1, c1, t1)"
    by (cases "OpenWrtRpcClient_authenticate R rc tr")
  with authenticate_trace [of R rc tr] have t1: "t1 = tr @ [login_request rc]" by simp
  from a authenticate_credentials [of R rc tr]
  have cr: "rpc_username c1 = rpc_username rc" "rpc_password c1 = rpc_password rc" by simp_all
  show ?thesis
  proof (cases r1)
    case (Inl e)
    with a t1 cr show ?thesis
      by (simp add: OpenWrtRpcClient_testConnection_def login_request_def)
  next
    case (Inr tok)
    obtain r2 t2 where b: "OpenWrtRpcClient_callRpc R c1 ''call'' (sysinfo_params c1) t1 = (r2, t2)"
      by (cases "OpenWrtRpcClient_callRpc R c1 ''call'' (sysinfo_params c1) t1")
    with callRpc_trace [of R c1 "''call''" "sysinfo_params c1" t1]
    obtain req where t2: "t2 = t1 @ [req]" and ne: "\<not> is_exec req" by auto
    from a Inr b t1 t2 ne cr show ?thesis
      by (cases r2) (simp_all add: OpenWrtRpcClient_testConnection_def login_request_def)
  qed
qed

lemma rpc_probe_success_iff:
  "success (fst (OpenWrtRpcClient_testConnection R rc tr)) \<longleftrightarrow>
     login_accepted (http_reply_of R tr (login_request rc))
     \<and> (let rc1 = fst (snd (OpenWrtRpcClient_authenticate R rc tr)) in
        call_answered (http_reply_of R (tr @ [login_request rc])
          (Post ''call'' (JStr ''call'') (JArr (authToken rc1 # JStr ''uci'' # sysinfo_params rc1)) None)))"
  by (cases "http_reply_of R tr (login_request rc)"
      rule: login_accepted.cases)
     (auto simp: OpenWrtRpcClient_testConnection_def OpenWrtRpcClient_authenticate_def
        OpenWrtRpcClient_callRpc_def login_request_def Let_def
        split: http_reply.splits option.splits elim: call_answered.elims)

lemma rpc_of_sshClient [simp]:
  "(case rpcClient c of None \<Rightarrow> new_OpenWrtRpcClient (c\<lparr>sshClient := s\<rparr>) | Some r \<Rightarrow> r) = rpc_of c"
  by (simp add: rpc_of_def new_OpenWrtRpcClient_def split: option.splits)

lemmas eval_client = OpenWrtClient_initialize_def OpenWrtClient_testConnection_def
  SshUciClient_testConnection_def exec_def
  OpenWrtRpcClient_testConnection_def OpenWrtRpcClient_authenticate_def OpenWrtRpcClient_callRpc_def
  OpenWrtRpcClient_uci_def OpenWrtClient_getPortForwardings_def
  new_OpenWrtRpcClient_def new_SshUciClient_def sysinfo_params_def rpc_of_def rpc_probe_accepted_def
  Let_def auto_client_def

section \<open>Rule validation before remote calls\<close>

text \<open>
  C1. An add-rule call whose \<open>internalIp\<close> is not a dotted quad should fail with a
  validation error and make no remote call. Evaluated at the rule
  \<open>{internalIp: "999.1.1.1", externalPort: 80, internalPort: 80}\<close>: the address is
  rejected by \<open>isValidIpAddress\<close>, yet \<open>SshUciClient.addRedirect\<close> (and the unified
  client bound to SSH) never calls the validators, runs all twelve commands, writes the
  address into \<open>dest_ip\<close> and reports success. The JSON-RPC-only client does reject the
  rule, but only after it has sent the login request.
\<close>

theorem addRedirect_accepts_invalid_ip:
  "\<not> isValidIpAddress (internalIp invalid_ip_rule)
   \<and> addRedirect accept_all invalid_ip_rule [] =
     (Inr \<lparr>add_success = True, add_id = ''port_forward''\<rparr>,
      map Exec
       [''uci add firewall redirect'',
        set_cmd ''name'' ''port_forward'',
        set_cmd ''target'' ''DNAT'',
        set_cmd ''src'' ''wan'',
        set_cmd ''dest'' ''lan'',
        set_cmd ''proto'' ''tcp'',
        set_cmd ''src_dport'' ''80'',
        set_cmd ''dest_ip'' ''999.1.1.1'',
        set_cmd ''dest_port'' ''80'',
        set_cmd ''enabled'' ''1'',
        ''uci commit firewall'',
        ''/etc/init.d/firewall restart 2>/dev/null || true''])
   \<and> OpenWrtClient_addPortForwarding accept_all ssh_bound invalid_ip_rule [] =
       addRedirect accept_all invalid_ip_rule []
   \<and> Luci_addPortForwarding accept_all fresh_luci invalid_ip_rule [] =
     (Inl (Error ''Invalid internal IP address: 999.1.1.1''),
      fresh_luci\<lparr>luci_authToken := JStr ''token''\<rparr>,
      [Post ''auth'' (login_method fresh_luci) (JArr []) None])"
proof -
  have 1: "\<not> isValidIpAddress (internalIp invalid_ip_rule)"
    by (simp add: invalid_ip_rule_def eval_ipv4)
  have 2: "addRedirect accept_all invalid_ip_rule [] =
     (Inr \<lparr>add_success = True, add_id = ''port_forward''\<rparr>,
      map Exec
       [''uci add firewall redirect'',
        set_cmd ''name'' ''port_forward'',
        set_cmd ''target'' ''DNAT'',
        set_cmd ''src'' ''wan'',
        set_cmd ''dest'' ''lan'',
        set_cmd ''proto'' ''tcp'',
        set_cmd ''src_dport'' ''80'',
        set_cmd ''dest_ip'' ''999.1.1.1'',
        set_cmd ''dest_port'' ''80'',
        set_cmd ''enabled'' ''1'',
        ''uci commit firewall'',
        ''/etc/init.d/firewall restart 2>/dev/null || true''])"
    by (simp add: addRedirect_def addRedirect_commands_def exec_def accept_all_def
        invalid_ip_rule_def eval_strings)
  have 3: "OpenWrtClient_addPortForwarding accept_all ssh_bound invalid_ip_rule [] =
       addRedirect accept_all invalid_ip_rule []"
    by (simp add: OpenWrtClient_addPortForwarding_def ssh_bound_def)
  have 4: "Luci_addPortForwarding accept_all fresh_luci invalid_ip_rule [] =
     (Inl (Error ''Invalid internal IP address: 999.1.1.1''),
      fresh_luci\<lparr>luci_authToken := JStr ''token''\<rparr>,
      [Post ''auth'' (login_method fresh_luci) (JArr []) None])"
    by (simp add: Luci_addPortForwarding_def ensure_auth_def Luci_authenticate_def
        Luci_callRpc_def luci_header_def fresh_luci_def accept_all_def invalid_ip_rule_def
        eval_ipv4 login_method_def)
  from 1 2 3 4 show ?thesis by blast
qed

section \<open>The command sequence of the interactive add-rule operation\<close>

text \<open>
  Whatever the rule, on a router that accepts every command \<open>addRedirect\<close> issues these
  twelve commands in this order and returns the UCI-safe name, which is never empty.
\<close>

lemma addRedirect_commands_accepted:
  assumes "\<forall>h c. exec_ok (ssh_reply_of R h c)"
  shows "addRedirect R config tr =
     (Inr \<lparr>add_success = True,
           add_id = generateUciName (or_default (name config) ''port_forward'')\<rparr>,
      tr @ map Exec (addRedirect_commands config))
     \<and> generateUciName (or_default (name config) ''port_forward'') \<noteq> []"
proof -
  from exec_all_accepting [OF assms, of "addRedirect_commands config" tr]
  have "addRedirect R config tr =
     (Inr \<lparr>add_success = True,
           add_id = generateUciName (or_default (name config) ''port_forward'')\<rparr>,
      tr @ map Exec (addRedirect_commands config))"
    by (auto simp: addRedirect_def)
  moreover have "generateUciName (or_default (name config) ''port_forward'') \<noteq> []"
    by (rule generateUciName_nonempty, rule or_default_nonempty) simp
  ultimately show ?thesis by simp
qed

text \<open>
  C2. The interactive add-rule operation should issue add, rename, eight sets, commit and
  reload, and return the identifier of the new section. Evaluated at the rule of the
  specification (\<open>web\<close>, tcp, 8080 to 10.0.0.5:80) on a router that accepts every
  command: the second command sets the option \<open>name\<close> of the anonymous section instead
  of renaming the section, no rename is issued at all, and the identifier returned,
  \<open>web\<close>, is the name of no section; \<open>deleteRedirect\<close> would address
  \<open>firewall.web\<close> with it.
\<close>

theorem addRedirect_web_rule_without_rename:
  "addRedirect accept_all web_rule [] =
     (Inr \<lparr>add_success = True, add_id = ''web''\<rparr>,
      map Exec
       [''uci add firewall redirect'',
        set_cmd ''name'' ''web'',
        set_cmd ''target'' ''DNAT'',
        set_cmd ''src'' ''wan'',
        set_cmd ''dest'' ''lan'',
        set_cmd ''proto'' ''tcp'',
        set_cmd ''src_dport'' ''8080'',
        set_cmd ''dest_ip'' ''10.0.0.5'',
        set_cmd ''dest_port'' ''80'',
        set_cmd ''enabled'' ''1'',
        ''uci commit firewall'',
        ''/etc/init.d/firewall restart 2>/dev/null || true''])
   \<and> filter is_rename (snd (addRedirect accept_all web_rule [])) = []
   \<and> hd (snd (deleteRedirect accept_all ''web'' [])) = Exec ''uci delete firewall.web''"
proof -
  have 1: "addRedirect accept_all web_rule [] =
     (Inr \<lparr>add_success = True, add_id = ''web''\<rparr>,
      map Exec
       [''uci add firewall redirect'',
        set_cmd ''name'' ''web'',
        set_cmd ''target'' ''DNAT'',
        set_cmd ''src'' ''wan'',
        set_cmd ''dest'' ''lan'',
        set_cmd ''proto'' ''tcp'',
        set_cmd ''src_dport'' ''8080'',
        set_cmd ''dest_ip'' ''10.0.0.5'',
        set_cmd ''dest_port'' ''80'',
        set_cmd ''enabled'' ''1'',
        ''uci commit firewall'',
        ''/etc/init.d/firewall restart 2>/dev/null || true''])"
    by (simp add: addRedirect_def addRedirect_commands_def exec_def accept_all_def
        web_rule_def eval_strings)
  have 2: "filter is_rename (snd (addRedirect accept_all web_rule [])) = []"
    unfolding 1 by (simp add: set_cmd_def)
  have 3: "hd (snd (deleteRedirect accept_all ''web'' [])) = Exec ''uci delete firewall.web''"
    by (simp add: deleteRedirect_def exec_def accept_all_def)
  from 1 2 3 show ?thesis by blast
qed

section \<open>Mode pinning and \<open>testConnection\<close>\<close>

text \<open>
  C3 as stated (a bound client keeps its mode over \<open>testConnection\<close>) fails: a client
  that \<open>initialize\<close> bound to \<open>rpc\<close>, because SSH was refused at that time, is rebound to
  \<open>ssh\<close> by a later \<open>testConnection\<close>.
\<close>

theorem testConnection_switches_mode:
  "OpenWrtClient_initialize ssh_later auto_client [] =
     (Inr (), rpc_bound\<lparr>sshClient := Some (new_SshUciClient auto_client)\<rparr>,
      [Exec release_cmd, login_request (rpc_of auto_client),
       Post ''call'' (JStr ''call'')
         (JArr [JStr ''token'', JStr ''uci'', JStr ''token'', JStr ''uci'', JStr ''get'',
                JArr [JStr ''system'', JStr ''info'']]) None,
       login_request (rpc_of auto_client)])
   \<and> connectionMode rpc_bound = ''rpc''
   \<and> connectionMode (fst (snd (OpenWrtClient_testConnection ssh_later rpc_bound
          [Exec release_cmd]))) = ''ssh''"
  by (simp add: eval_client ssh_later_def rpc_bound_def login_request_def)

text \<open>
  C3, amended. \<open>testConnection\<close> leaves a client bound to \<open>ssh\<close> bound to \<open>ssh\<close>; and
  whenever its SSH probe is accepted it reports success, issues that one command and binds
  the client to \<open>ssh\<close>, whatever the mode was before.
\<close>

theorem testConnection_rebinds_ssh:
  "(connectionMode c = ''ssh'' \<longrightarrow>
      connectionMode (fst (snd (OpenWrtClient_testConnection R c tr))) = ''ssh'')
   \<and> (exec_ok (ssh_reply_of R tr release_cmd) \<longrightarrow>
      success (fst (OpenWrtClient_testConnection R c tr))
      \<and> connectionMode (fst (snd (OpenWrtClient_testConnection R c tr))) = ''ssh''
      \<and> snd (snd (OpenWrtClient_testConnection R c tr)) = tr @ [Exec release_cmd])"
proof (intro conjI impI)
  show "connectionMode (fst (snd (OpenWrtClient_testConnection R c tr))) = ''ssh''"
    by (simp add: OpenWrtClient_testConnection_def split: prod.splits)
next
  assume "exec_ok (ssh_reply_of R tr release_cmd)"
  from ssh_probe_ok [OF this] obtain m where
    "SshUciClient_testConnection R tr = (\<lparr>success = True, message = m\<rparr>, tr @ [Exec release_cmd])" ..
  then show "success (fst (OpenWrtClient_testConnection R c tr))"
    "connectionMode (fst (snd (OpenWrtClient_testConnection R c tr))) = ''ssh''"
    "snd (snd (OpenWrtClient_testConnection R c tr)) = tr @ [Exec release_cmd]"
    by (simp_all add: OpenWrtClient_testConnection_def)
qed



theorem testConnection_rebinds_ssh_witness:
  "connectionMode ssh_bound = ''ssh'' \<and> exec_ok (ssh_reply_of accept_all [] release_cmd)
   \<and> success (fst (OpenWrtClient_testConnection accept_all ssh_bound []))
   \<and> connectionMode (fst (snd (OpenWrtClient_testConnection accept_all ssh_bound []))) = ''ssh''
   \<and> snd (snd (OpenWrtClient_testConnection accept_all ssh_bound [])) = [Exec release_cmd]"
  using testConnection_rebinds_ssh [of ssh_bound accept_all "[]"]
  by (simp add: ssh_bound_def accept_all_def)

section \<open>Mode selection in \<open>initialize\<close>\<close>

text \<open>
  C4 as stated (a failed SSH probe and an accepted RPC login bind the client to \<open>rpc\<close>)
  fails: on a router that accepts the login but answers the follow-up call of the RPC probe
  with HTTP 404, \<open>initialize\<close> raises and the client stays in mode \<open>auto\<close>.
\<close>

theorem initialize_login_alone_not_enough:
  "\<not> exec_ok (ssh_reply_of login_only [] release_cmd)
   \<and> fst (OpenWrtRpcClient_authenticate login_only (rpc_of auto_client) [Exec release_cmd])
       = Inr (JStr ''token'')
   \<and> fst (OpenWrtClient_initialize login_only auto_client []) = Inl unable_to_connect
   \<and> connectionMode (fst (snd (OpenWrtClient_initialize login_only auto_client []))) = ''auto''"
  by (simp add: eval_client login_only_def)

text \<open>
  C4, amended. In auto mode \<open>initialize\<close> probes SSH first. If that probe is accepted it
  binds \<open>ssh\<close> with that single command and no RPC request. If it is refused and the RPC
  probe succeeds (login and the follow-up call) and the login repeated after the probe is
  accepted, it binds \<open>rpc\<close> after exactly one SSH probe followed by three RPC requests.
\<close>

theorem initialize_auto_probe_order:
  assumes "connectionMode c \<noteq> ''ssh''" and "connectionMode c \<noteq> ''rpc''"
  shows "(exec_ok (ssh_reply_of R tr release_cmd) \<longrightarrow>
            OpenWrtClient_initialize R c tr =
              (Inr (), c\<lparr>sshClient := Some (new_SshUciClient c), connectionMode := ''ssh''\<rparr>,
               tr @ [Exec release_cmd]))
       \<and> (\<not> exec_ok (ssh_reply_of R tr release_cmd)
            \<and> rpc_probe_accepted R (rpc_of c) (tr @ [Exec release_cmd]) \<longrightarrow>
            fst (OpenWrtClient_initialize R c tr) = Inr ()
            \<and> connectionMode (fst (snd (OpenWrtClient_initialize R c tr))) = ''rpc''
            \<and> (\<exists>rpcs. snd (snd (OpenWrtClient_initialize R c tr)) = tr @ Exec release_cmd # rpcs
                  \<and> filter is_exec rpcs = [] \<and> length rpcs = 3))"
proof (rule conjI; rule impI)
  assume "exec_ok (ssh_reply_of R tr release_cmd)"
  from ssh_probe_ok [OF this] assms
  show "OpenWrtClient_initialize R c tr =
              (Inr (), c\<lparr>sshClient := Some (new_SshUciClient c), connectionMode := ''ssh''\<rparr>,
               tr @ [Exec release_cmd])"
    by (auto simp: OpenWrtClient_initialize_def Let_def)
next
  assume h: "\<not> exec_ok (ssh_reply_of R tr release_cmd)
            \<and> rpc_probe_accepted R (rpc_of c) (tr @ [Exec release_cmd])"
  let ?t1 = "tr @ [Exec release_cmd]"
  from h ssh_probe_failed obtain m where
    p: "SshUciClient_testConnection R tr = (\<lparr>success = False, message = m\<rparr>, ?t1)" by blast
  obtain res rc1 t2 where q: "OpenWrtRpcClient_testConnection R (rpc_of c) ?t1 = (res, rc1, t2)"
    by (cases "OpenWrtRpcClient_testConnection R (rpc_of c) ?t1")
  with h have ok: "success res" and re: "\<not> isl (fst (OpenWrtRpcClient_authenticate R rc1 t2))"
    by (simp_all add: rpc_probe_accepted_def)
  obtain r3 rc2 t3 where a: "OpenWrtRpcClient_authenticate R rc1 t2 = (r3, rc2, t3)"
    by (cases "OpenWrtRpcClient_authenticate R rc1 t2")
  with re obtain tok where r3: "r3 = Inr tok" by (cases r3) auto
  from rpc_probe_trace [of R "rpc_of c" ?t1] q ok obtain reqs where
    t2: "t2 = ?t1 @ reqs" and ne: "filter is_exec reqs = []" and len: "length reqs = 2" by auto
  from authenticate_trace [of R rc1 t2] a have t3: "t3 = t2 @ [login_request rc1]" by simp
  have init: "OpenWrtClient_initialize R c tr =
      (Inr (), c\<lparr>sshClient := Some (new_SshUciClient c), connectionMode := ''rpc'', rpcClient := Some rc2\<rparr>, t3)"
    using assms p q ok a r3 by (simp add: OpenWrtClient_initialize_def Let_def)
  have "t3 = tr @ Exec release_cmd # (reqs @ [login_request rc1])" using t2 t3 by simp
  moreover have "filter is_exec (reqs @ [login_request rc1]) = []" using ne by (simp add: login_request_def)
  moreover have "length (reqs @ [login_request rc1]) = 3" using len by simp
  ultimately have "\<exists>rpcs. t3 = tr @ Exec release_cmd # rpcs \<and> filter is_exec rpcs = [] \<and> length rpcs = 3"
    by blast
  with init show "fst (OpenWrtClient_initialize R c tr) = Inr ()
            \<and> connectionMode (fst (snd (OpenWrtClient_initialize R c tr))) = ''rpc''
            \<and> (\<exists>rpcs. snd (snd (OpenWrtClient_initialize R c tr)) = tr @ Exec release_cmd # rpcs
                  \<and> filter is_exec rpcs = [] \<and> length rpcs = 3)"
    by simp
qed

theorem initialize_auto_probe_order_witness:
  "connectionMode auto_client \<noteq> ''ssh'' \<and> connectionMode auto_client \<noteq> ''rpc''
   \<and> exec_ok (ssh_reply_of accept_all [] release_cmd)
   \<and> OpenWrtClient_initialize accept_all auto_client [] = (Inr (), ssh_bound, [Exec release_cmd])
   \<and> \<not> exec_ok (ssh_reply_of ssh_later [] release_cmd)
   \<and> rpc_probe_accepted ssh_later (rpc_of auto_client) [Exec release_cmd]
   \<and> fst (OpenWrtClient_initialize ssh_later auto_client []) = Inr ()
   \<and> connectionMode (fst (snd (OpenWrtClient_initialize ssh_later auto_client []))) = ''rpc''
   \<and> (\<exists>rpcs. snd (snd (OpenWrtClient_initialize ssh_later auto_client [])) = Exec release_cmd # rpcs
         \<and> filter is_exec rpcs = [] \<and> length rpcs = 3)"
proof -
  have m: "connectionMode auto_client \<noteq> ''ssh''" "connectionMode auto_client \<noteq> ''rpc''"
    by (simp_all add: auto_client_def)
  have a: "exec_ok (ssh_reply_of accept_all [] release_cmd)" by (simp add: accept_all_def)
  have b: "\<not> exec_ok (ssh_reply_of ssh_later [] release_cmd)" by (simp add: ssh_later_def)
  have c: "rpc_probe_accepted ssh_later (rpc_of auto_client) [Exec release_cmd]"
    by (simp add: eval_client ssh_later_def)
  have s: "auto_client\<lparr>sshClient := Some (new_SshUciClient auto_client), connectionMode := ''ssh''\<rparr> = ssh_bound"
    by (simp add: ssh_bound_def auto_client_def)
  from initialize_auto_probe_order [OF m, of accept_all "[]"] a s
  have 1: "OpenWrtClient_initialize accept_all auto_client [] = (Inr (), ssh_bound, [Exec release_cmd])"
    by simp
  from initialize_auto_probe_order [OF m, of ssh_later "[]"] b c
  have 2: "fst (OpenWrtClient_initialize ssh_later auto_client []) = Inr ()
   \<and> connectionMode (fst (snd (OpenWrtClient_initialize ssh_later auto_client []))) = ''rpc''
   \<and> (\<exists>rpcs. snd (snd (OpenWrtClient_initialize ssh_later auto_client [])) = Exec release_cmd # rpcs
         \<and> filter is_exec rpcs = [] \<and> length rpcs = 3)"
    by simp
  from m a b c 1 2 show ?thesis by blast
qed

section \<open>After both probes failed\<close>

text \<open>
  C5 as stated (after a failed \<open>initialize\<close> every operation fails without a remote
  call) fails: the listing operation sends an RPC request to the router, and the error it
  raises is the transport's.
\<close>

theorem failed_initialize_then_list_calls_router:
  "OpenWrtClient_initialize dead_router auto_client [] =
     (Inl unable_to_connect,
      auto_client\<lparr>sshClient := Some (new_SshUciClient auto_client),
                   rpcClient := Some (rpc_of auto_client)\<rparr>,
      [Exec release_cmd, login_request (rpc_of auto_client)])
   \<and> OpenWrtClient_getPortForwardings dead_router
        (auto_client\<lparr>sshClient := Some (new_SshUciClient auto_client),
                      rpcClient := Some (rpc_of auto_client)\<rparr>)
        [Exec release_cmd, login_request (rpc_of auto_client)] =
     (Inl (TypeError ''fetch failed''),
      [Exec release_cmd, login_request (rpc_of auto_client),
       Post ''call'' (JStr ''call'')
         (JArr [JNull, JStr ''uci'', JNull, JStr ''uci'', JStr ''get'', JArr [JStr ''firewall'']])
         None])"
  by (simp add: eval_client dead_router_def login_request_def)

text \<open>
  C5, amended. If both probes fail, \<open>initialize\<close> raises "Unable to connect to router"
  and leaves the mode as it was. On that client, adding and deleting a rule fail without a
  remote call, with the error "JSON-RPC mode not yet implemented"; listing sends exactly one
  RPC request and no SSH command.
\<close>

theorem initialize_both_probes_fail:
  assumes "connectionMode c \<noteq> ''ssh''" and "connectionMode c \<noteq> ''rpc''"
    and "\<not> exec_ok (ssh_reply_of R tr release_cmd)"
    and "\<not> success (fst (OpenWrtRpcClient_testConnection R (rpc_of c) (tr @ [Exec release_cmd])))"
  shows "fst (OpenWrtClient_initialize R c tr) = Inl unable_to_connect
     \<and> connectionMode (fst (snd (OpenWrtClient_initialize R c tr))) = connectionMode c
     \<and> OpenWrtClient_addPortForwarding R' (fst (snd (OpenWrtClient_initialize R c tr))) config tr' =
         (Inl (Error ''JSON-RPC mode not yet implemented for adding forwardings''), tr')
     \<and> OpenWrtClient_deletePortForwarding R' (fst (snd (OpenWrtClient_initialize R c tr))) ident tr' =
         (Inl (Error ''JSON-RPC mode not yet implemented for deleting forwardings''), tr')
     \<and> (\<exists>req. snd (OpenWrtClient_getPortForwardings R' (fst (snd (OpenWrtClient_initialize R c tr))) tr')
            = tr' @ [req] \<and> \<not> is_exec req)"
proof -
  let ?t1 = "tr @ [Exec release_cmd]"
  from assms(3) ssh_probe_failed obtain m where
    p: "SshUciClient_testConnection R tr = (\<lparr>success = False, message = m\<rparr>, ?t1)" by blast
  obtain res rc1 t2 where q: "OpenWrtRpcClient_testConnection R (rpc_of c) ?t1 = (res, rc1, t2)"
    by (cases "OpenWrtRpcClient_testConnection R (rpc_of c) ?t1")
  with assms(4) have nok: "\<not> success res" by simp
  have init: "OpenWrtClient_initialize R c tr =
      (Inl unable_to_connect, c\<lparr>sshClient := Some (new_SshUciClient c), rpcClient := Some rc1\<rparr>, t2)"
    using assms(1,2) p q nok by (simp add: OpenWrtClient_initialize_def Let_def)
  let ?c' = "c\<lparr>sshClient := Some (new_SshUciClient c), rpcClient := Some rc1\<rparr>"
  obtain r4 t4 where u: "OpenWrtRpcClient_uci R' rc1 ''get'' [JStr ''firewall''] tr' = (r4, t4)"
    by (cases "OpenWrtRpcClient_uci R' rc1 ''get'' [JStr ''firewall''] tr'")
  with uci_trace [of R' rc1 "''get''" "[JStr ''firewall'']" tr']
  obtain req where t4: "t4 = tr' @ [req]" "\<not> is_exec req" by auto
  have g: "\<exists>req. snd (OpenWrtClient_getPortForwardings R' ?c' tr') = tr' @ [req] \<and> \<not> is_exec req"
    using assms(1) u t4 by (cases r4) (simp_all add: OpenWrtClient_getPortForwardings_def)
  show ?thesis
    unfolding init using assms(1) g
    by (simp add: OpenWrtClient_addPortForwarding_def OpenWrtClient_deletePortForwarding_def)
qed

theorem initialize_both_probes_fail_witness:
  "connectionMode auto_client \<noteq> ''ssh'' \<and> connectionMode auto_client \<noteq> ''rpc''
   \<and> \<not> exec_ok (ssh_reply_of dead_router [] release_cmd)
   \<and> \<not> success (fst (OpenWrtRpcClient_testConnection dead_router (rpc_of auto_client)
                        [Exec release_cmd]))
   \<and> fst (OpenWrtClient_initialize dead_router auto_client []) = Inl unable_to_connect
   \<and> connectionMode (fst (snd (OpenWrtClient_initialize dead_router auto_client []))) = ''auto''
   \<and> OpenWrtClient_addPortForwarding accept_all
        (fst (snd (OpenWrtClient_initialize dead_router auto_client []))) web_rule [] =
         (Inl (Error ''JSON-RPC mode not yet implemented for adding forwardings''), [])
   \<and> OpenWrtClient_deletePortForwarding accept_all
        (fst (snd (OpenWrtClient_initialize dead_router auto_client []))) ''web'' [] =
         (Inl (Error ''JSON-RPC mode not yet implemented for deleting forwardings''), [])
   \<and> (\<exists>req. snd (OpenWrtClient_getPortForwardings accept_all
                     (fst (snd (OpenWrtClient_initialize dead_router auto_client []))) [])
            = [req] \<and> \<not> is_exec req)"
proof -
  have m: "connectionMode auto_client \<noteq> ''ssh''" "connectionMode auto_client \<noteq> ''rpc''"
    by (simp_all add: auto_client_def)
  have a: "\<not> exec_ok (ssh_reply_of dead_router [] release_cmd)" by (simp add: dead_router_def)
  have b: "\<not> success (fst (OpenWrtRpcClient_testConnection dead_router (rpc_of auto_client)
                        ([] @ [Exec release_cmd])))"
    by (simp add: eval_client dead_router_def)
  have mo: "connectionMode auto_client = ''auto''" by (simp add: auto_client_def)
  from initialize_both_probes_fail [OF m a b, of accept_all web_rule "[]" "''web''"] m a b mo
  show ?thesis by simp
qed

lemmas eval_list = getRedirects_def getRedirects_try_def exec_def
  show_redirects_cmd_def get_cmd_def quote_def split_str_def redirect_fields_def mk_rule_def
  trim_def is_space_def parseInt_or0_def parseInt_def is_digit_def is_hex_digit_def digits_val_def

lemmas eval_luci = Luci_getPortForwardings_def ensure_auth_def Luci_uci_def Luci_callRpc_def
  Luci_authenticate_def luci_header_def

section \<open>Failures during the listing operation\<close>









section \<open>The enabled flag of a listed rule\<close>

text \<open>
  C10 says that a listed rule is enabled if and only if the option \<open>enabled\<close> read from
  the router is not exactly "0", and that a redirect section whose option is missing or
  empty is reported as enabled. For the rules that a listing returns, both operations
  compute the flag in this way (lemmas \<open>getRedirects_enabled\<close> and
  \<open>Luci_getPortForwardings_enabled\<close>). Over SSH, however, a section whose option is
  missing is not reported at all: \<open>uci get\<close> exits with code 1 for an option that does
  not exist, \<open>exec\<close> rejects for every exit code other than 0, and the \<open>catch\<close> of
  \<open>getRedirects\<close> returns the empty list, which drops every rule of the router.

  On the router with the one redirect section \<open>web\<close>, the listing issues the command
  \<open>uci show firewall 2>/dev/null | grep '=redirect'\<close> and then the nine commands
  \<open>uci get firewall.web.<option> 2>/dev/null\<close>, and returns
  \<^item> no rule when the read of \<open>enabled\<close> exits with code 1;
  \<^item> the rule with \<open>enabled\<close> true when the read prints nothing, "1" or "00";
  \<^item> the rule with \<open>enabled\<close> false when the read prints "0", the line feed after it
    being trimmed.

  The JSON-RPC-only client reports the section without the option and the section with
  the empty option as enabled, and the section with the option "0" as disabled.
\<close>

theorem missing_enabled_option_empties_listing:
  "getRedirects (web_router (Closed 1 [] [])) [] = (Inr [], web_listing_trace)
   \<and> getRedirects (web_router (Closed 0 [] [])) [] = (Inr [web_listed True], web_listing_trace)
   \<and> getRedirects (web_router (Closed 0 (''0'' @ [CHR 0x0A]) [])) [] =
        (Inr [web_listed False], web_listing_trace)
   \<and> getRedirects (web_router (Closed 0 (''1'' @ [CHR 0x0A]) [])) [] =
        (Inr [web_listed True], web_listing_trace)
   \<and> getRedirects (web_router (Closed 0 (''00'' @ [CHR 0x0A]) [])) [] =
        (Inr [web_listed True], web_listing_trace)
   \<and> map_sum id (map (\<lambda>r. (uciName r, enabled r)))
        (fst (Luci_getPortForwardings sections_router authed_luci [])) =
        Inr [(''cfg0a92bd'', True), (''cfg0b92bd'', False), (''cfg0c92bd'', True)]"
proof -
  have 1: "getRedirects (web_router (Closed 1 [] [])) [] = (Inr [], web_listing_trace)"
    by (simp add: eval_list web_router_def web_listing_trace_def)
  have 2: "getRedirects (web_router (Closed 0 [] [])) [] = (Inr [web_listed True], web_listing_trace)"
    by (simp add: eval_list web_router_def web_listing_trace_def web_listed_def digit_val_def)
  have 3: "getRedirects (web_router (Closed 0 (''0'' @ [CHR 0x0A]) [])) [] =
        (Inr [web_listed False], web_listing_trace)"
    by (simp add: eval_list web_router_def web_listing_trace_def web_listed_def digit_val_def)
  have 4: "getRedirects (web_router (Closed 0 (''1'' @ [CHR 0x0A]) [])) [] =
        (Inr [web_listed True], web_listing_trace)"
    by (simp add: eval_list web_router_def web_listing_trace_def web_listed_def digit_val_def)
  have 5: "getRedirects (web_router (Closed 0 (''00'' @ [CHR 0x0A]) [])) [] =
        (Inr [web_listed True], web_listing_trace)"
    by (simp add: eval_list web_router_def web_listing_trace_def web_listed_def digit_val_def)
  have 6: "map_sum id (map (\<lambda>r. (uciName r, enabled r)))
        (fst (Luci_getPortForwardings sections_router authed_luci [])) =
        Inr [(''cfg0a92bd'', True), (''cfg0b92bd'', False), (''cfg0c92bd'', True)]"
    by (simp add: eval_luci sections_router_def authed_luci_def mk_luci_rule_def Let_def)
  from 1 2 3 4 5 6 show ?thesis by simp
qed


section \<open>Facts about the credential codec\<close>

lemma xor_stream_twice: "xor_stream f i (xor_stream f i bs) = bs"
  by (induction bs arbitrary: i) (simp_all add: xor.assoc)

lemma xor_stream_length: "length (xor_stream f i bs) = length bs"
  by (induction bs arbitrary: i) simp_all

lemma hex_char_digit:
  assumes "n < 16"
  shows "is_hex_digit (hex_char n) \<and> hex_digit_val (hex_char n) = n"
proof -
  have "\<forall>k\<in>set [0..<16]. is_hex_digit (hex_char k) \<and> hex_digit_val (hex_char k) = k"
    by (simp add: upt_rec hex_char_def is_hex_digit_def hex_digit_val_def is_digit_def)
  with assms show ?thesis by simp
qed

lemma hex_decode_encode: "hex_decode (hex_encode bs) = bs"
proof (induction bs)
  case Nil
  then show ?case by (simp add: hex_encode_def)
next
  case (Cons b bs)
  have "unat b < 256" using unsigned_less [of b, where ?'a = nat] by simp
  then have hi: "unat b div 16 < 16" by simp
  have lo: "unat b mod 16 < 16" by simp
  have "of_nat (16 * (unat b div 16) + unat b mod 16) = b" by simp
  with hex_char_digit [OF hi] hex_char_digit [OF lo] Cons.IH show ?case
    by (simp add: hex_encode_def)
qed

lemma hex_encode_empty: "hex_encode bs = [] \<longleftrightarrow> bs = []"
  by (cases bs) (simp_all add: hex_encode_def)

lemma hex_encode_length: "length (hex_encode bs) = 2 * length bs"
  by (induction bs) (simp_all add: hex_encode_def)

lemma word_bytes_length: "length (word_bytes w) = 16"
  by (simp add: word_bytes_def)

lemma decode_1: "cp < 0x80 \<Longrightarrow> utf8_code_points (utf8_bytes_of cp @ rest) = cp # utf8_code_points rest"
  by (simp add: utf8_bytes_of_def)

lemma decode_2:
  assumes "0x80 \<le> cp" "cp < 0x800"
  shows "utf8_code_points (utf8_bytes_of cp @ rest) = cp # utf8_code_points rest"
proof -
  define a where "a = cp div 64"
  define b where "b = cp mod 64"
  have cp: "cp = a * 64 + b" unfolding a_def b_def by simp
  have r: "2 \<le> a" "a < 32" "b < 64" using assms unfolding a_def b_def by auto
  have bytes: "utf8_bytes_of cp = [0xC0 + a, 0x80 + b]"
    using assms by (simp add: utf8_bytes_of_def a_def b_def)
  show ?thesis unfolding bytes using r cp by (simp add: is_cont_def)
qed

lemma split_3: "(cp::nat) = cp div 4096 * 4096 + cp div 64 mod 64 * 64 + cp mod 64"
proof -
  have "cp mod 4096 = 64 * (cp div 64 mod 64) + cp mod 64"
    using mod_mult2_eq [of cp 64 64] by simp
  then show ?thesis using div_mult_mod_eq [of cp 4096] by simp
qed

lemma split_4:
  "(cp::nat) = cp div 262144 * 262144 + cp div 4096 mod 64 * 4096 + cp div 64 mod 64 * 64 + cp mod 64"
proof -
  have "cp mod 262144 = 4096 * (cp div 4096 mod 64) + cp mod 4096"
    using mod_mult2_eq [of cp 4096 64] by simp
  moreover have "cp mod 4096 = 64 * (cp div 64 mod 64) + cp mod 64"
    using mod_mult2_eq [of cp 64 64] by simp
  ultimately show ?thesis using div_mult_mod_eq [of cp 262144] by simp
qed

lemma decode_3:
  assumes "0x800 \<le> cp" "cp < 0x10000" "\<not> is_surrogate cp"
  shows "utf8_code_points (utf8_bytes_of cp @ rest) = cp # utf8_code_points rest"
proof -
  define a where "a = cp div 4096"
  define b where "b = cp div 64 mod 64"
  define c where "c = cp mod 64"
  have cp: "cp = a * 4096 + b * 64 + c" unfolding a_def b_def c_def by (rule split_3)
  have "cp div 4096 < 16" using assms(2) by (simp add: less_mult_imp_div_less)
  then have r: "a < 16" "b < 64" "c < 64" unfolding a_def b_def c_def by simp_all
  have e0: "a = 0 \<Longrightarrow> 32 \<le> b" using assms(1) r unfolding cp by simp
  have ed: "a = 13 \<Longrightarrow> b \<le> 31" using assms(3) r unfolding cp is_surrogate_def by simp
  have bytes: "utf8_bytes_of cp = [0xE0 + a, 0x80 + b, 0x80 + c]"
    using assms by (simp add: utf8_bytes_of_def a_def b_def c_def)
  have val: "(0xE0 + a - 0xE0) * 4096 + (0x80 + b - 0x80) * 64 + (0x80 + c - 0x80) = cp"
    unfolding cp by simp
  have "utf8_code_points ([0xE0 + a, 0x80 + b, 0x80 + c] @ rest) =
     ((0xE0 + a - 0xE0) * 4096 + (0x80 + b - 0x80) * 64 + (0x80 + c - 0x80)) # utf8_code_points rest"
    using r e0 ed by (simp add: is_cont_def del: add_diff_cancel_left')
  then show ?thesis unfolding bytes val .
qed

lemma decode_4:
  assumes "0x10000 \<le> cp" "cp < 0x110000"
  shows "utf8_code_points (utf8_bytes_of cp @ rest) = cp # utf8_code_points rest"
proof -
  define a where "a = cp div 262144"
  define b where "b = cp div 4096 mod 64"
  define c where "c = cp div 64 mod 64"
  define d where "d = cp mod 64"
  have cp: "cp = a * 262144 + b * 4096 + c * 64 + d" unfolding a_def b_def c_def d_def by (rule split_4)
  have "cp div 262144 < 5" using assms(2) by (simp add: less_mult_imp_div_less)
  then have r: "a \<le> 4" "b < 64" "c < 64" "d < 64" unfolding a_def b_def c_def d_def by simp_all
  have f0: "a = 0 \<Longrightarrow> 16 \<le> b" using assms(1) r unfolding cp by simp
  have f4: "a = 4 \<Longrightarrow> b \<le> 15" using assms(2) r unfolding cp by simp
  have bytes: "utf8_bytes_of cp = [0xF0 + a, 0x80 + b, 0x80 + c, 0x80 + d]"
    using assms by (simp add: utf8_bytes_of_def a_def b_def c_def d_def)
  have val: "(0xF0 + a - 0xF0) * 262144 + (0x80 + b - 0x80) * 4096 + (0x80 + c - 0x80) * 64
       + (0x80 + d - 0x80) = cp"
    unfolding cp by simp
  have "utf8_code_points ([0xF0 + a, 0x80 + b, 0x80 + c, 0x80 + d] @ rest) =
     ((0xF0 + a - 0xF0) * 262144 + (0x80 + b - 0x80) * 4096 + (0x80 + c - 0x80) * 64
       + (0x80 + d - 0x80)) # utf8_code_points rest"
    using r f0 f4 by (simp add: is_cont_def del: add_diff_cancel_left')
  then show ?thesis unfolding bytes val .
qed

lemma decode_encode_cp:
  "scalar cp \<Longrightarrow> utf8_code_points (utf8_bytes_of cp @ rest) = cp # utf8_code_points rest"
  using decode_1 [of cp rest] decode_2 [of cp rest] decode_3 [of cp rest] decode_4 [of cp rest]
  by (cases "cp < 0x80"; cases "cp < 0x800"; cases "cp < 0x10000") (auto simp: scalar_def)

lemma decode_encode_cps:
  "\<forall>cp\<in>set cps. scalar cp \<Longrightarrow> utf8_code_points (concat (map utf8_bytes_of cps)) = cps"
  by (induction cps) (simp_all add: decode_encode_cp)

lemma utf8_bytes_small: "scalar cp \<Longrightarrow> \<forall>b\<in>set (utf8_bytes_of cp). b < 256"
  by (auto simp: utf8_bytes_of_def scalar_def)

lemma utf8_bytes_nonempty: "utf8_bytes_of cp \<noteq> []"
  by (simp add: utf8_bytes_of_def)

lemma code_points_nonempty: "us \<noteq> [] \<Longrightarrow> code_points us \<noteq> []"
  by (induction us rule: code_points.induct) simp_all

lemma code_points_scalar:
  "well_formed_units us \<Longrightarrow> \<forall>u\<in>set us. u < 65536 \<Longrightarrow> \<forall>cp\<in>set (code_points us). scalar cp"
proof (induction us rule: code_points.induct)
  case 1
  then show ?case by simp
next
  case (2 u)
  then show ?case by (simp add: scalar_def)
next
  case (3 u v us)
  show ?case
  proof (cases "is_high_surrogate u")
    case True
    with "3.prems" have low: "is_low_surrogate v" and wf: "well_formed_units us" by simp_all
    from True low have "scalar (0x10000 + (u - 0xD800) * 1024 + (v - 0xDC00))"
      by (auto simp: scalar_def is_high_surrogate_def is_low_surrogate_def is_surrogate_def)
    moreover from "3.IH"(1) True low wf "3.prems"(2) have "\<forall>cp\<in>set (code_points us). scalar cp"
      by simp
    ultimately show ?thesis using True low by simp
  next
    case False
    with "3.prems" have nl: "\<not> is_low_surrogate u" and wf: "well_formed_units (v # us)" by simp_all
    from False nl have ns: "\<not> is_surrogate u"
      by (auto simp: is_high_surrogate_def is_low_surrogate_def is_surrogate_def)
    with "3.prems"(2) have "scalar u" by (simp add: scalar_def)
    moreover from "3.IH"(2) False wf "3.prems"(2) have "\<forall>cp\<in>set (code_points (v # us)). scalar cp"
      by simp
    ultimately show ?thesis using False ns by simp
  qed
qed

lemma code_units_roundtrip:
  "well_formed_units us \<Longrightarrow> \<forall>u\<in>set us. u < 65536 \<Longrightarrow>
     concat (map code_units_of (code_points us)) = us"
proof (induction us rule: code_points.induct)
  case 1
  then show ?case by simp
next
  case (2 u)
  then show ?case by (auto simp: code_units_of_def is_surrogate_def)
next
  case (3 u v us)
  show ?case
  proof (cases "is_high_surrogate u")
    case True
    with "3.prems" have low: "is_low_surrogate v" and wf: "well_formed_units us" by simp_all
    define x where "x = u - 0xD800"
    define y where "y = v - 0xDC00"
    have xy: "x < 1024" "y < 1024" and u: "u = 0xD800 + x" and v: "v = 0xDC00 + y"
      using True low unfolding x_def y_def is_high_surrogate_def is_low_surrogate_def by auto
    have pair: "code_units_of (0x10000 + x * 1024 + y) = [0xD800 + x, 0xDC00 + y]"
      using xy by (simp add: code_units_of_def)
    from "3.IH"(1) True low wf "3.prems"(2)
    have rest: "concat (map code_units_of (code_points us)) = us" by simp
    have "code_points (u # v # us) = (0x10000 + x * 1024 + y) # code_points us"
      using True low by (simp add: u v)
    then show ?thesis using pair rest by (simp add: u v)
  next
    case False
    with "3.prems" have nl: "\<not> is_low_surrogate u" and wf: "well_formed_units (v # us)" by simp_all
    from False nl have ns: "\<not> is_surrogate u"
      by (auto simp: is_high_surrogate_def is_low_surrogate_def is_surrogate_def)
    with "3.prems"(2) have "code_units_of u = [u]"
      by (auto simp: code_units_of_def is_surrogate_def)
    with "3.IH"(2) False wf ns "3.prems"(2) show ?thesis by simp
  qed
qed

lemma map_unat_of_nat_bytes:
  "\<forall>b\<in>set xs. b < 256 \<Longrightarrow> map unat (map of_nat xs :: 8 word list) = xs"
  by (induction xs) (simp_all add: unat_of_nat)

lemma utf8_decode_encode:
  assumes "well_formed s"
  shows "utf8_decode (utf8_encode s) = s"
proof -
  let ?us = "map unat s"
  let ?cps = "code_points ?us"
  have lt: "\<forall>u\<in>set ?us. u < 65536"
  proof
    fix u assume "u \<in> set ?us"
    then obtain w :: "16 word" where "u = unat w" by auto
    then show "u < 65536" using unsigned_less [of w, where ?'a = nat] by simp
  qed
  from assms have wf: "well_formed_units ?us" by (simp add: well_formed_def)
  have sc: "\<forall>cp\<in>set ?cps. scalar cp" using code_points_scalar [OF wf lt] .
  then have small: "\<forall>b\<in>set (concat (map utf8_bytes_of ?cps)). b < 256"
    using utf8_bytes_small by auto
  have "utf8_decode (utf8_encode s)
      = map of_nat (concat (map code_units_of (utf8_code_points (concat (map utf8_bytes_of ?cps)))))"
    unfolding utf8_decode_def utf8_encode_def using map_unat_of_nat_bytes [OF small] by simp
  also have "\<dots> = map of_nat (concat (map code_units_of ?cps))"
    using decode_encode_cps [OF sc] by simp
  also have "\<dots> = map of_nat ?us" using code_units_roundtrip [OF wf lt] by simp
  also have "\<dots> = s" by (simp add: map_idI)
  finally show ?thesis .
qed


lemma utf8_encode_nonempty: "s \<noteq> [] \<Longrightarrow> utf8_encode s \<noteq> []"
proof -
  assume "s \<noteq> []"
  then have "code_points (map unat s) \<noteq> []" by (simp add: code_points_nonempty)
  then obtain cp cps where "code_points (map unat s) = cp # cps" by (cases "code_points (map unat s)") auto
  then show ?thesis using utf8_bytes_nonempty [of cp] by (simp add: utf8_encode_def)
qed

lemma key_length:
  "\<forall>pw salt n. length (scryptSync C pw salt n) = n \<Longrightarrow> length (getEncryptionKey C env) = 32"
  by (simp add: getEncryptionKey_def KEY_LENGTH_def string_bytes_def split: option.splits)

lemma decrypt_after_encrypt_utf8:
  assumes "\<forall>pw salt n. length (scryptSync C pw salt n) = n" and "p \<noteq> []"
  shows "decrypt_after_encrypt C env rnd p = Inr (utf8_decode (utf8_encode p))"
proof -
  let ?key = "getEncryptionKey C env"
  let ?ivb = "word_bytes rnd"
  let ?ct = "xor_stream (gcm_keystream C ?key ?ivb) 0 (utf8_encode p)"
  let ?d = "\<lparr>encrypted = hex_encode ?ct, iv = hex_encode ?ivb,
             tag = hex_encode (word_bytes (gcm_tag C ?key ?ivb ?ct))\<rparr>"
  have k: "length ?key = 32" using key_length [OF assms(1)] .
  have ivne: "?ivb \<noteq> []" using word_bytes_length [of rnd] by auto
  have enc: "encrypt C env rnd p = Inr ?d"
    using assms(2) k ivne by (simp add: encrypt_def Let_def)
  have ctne: "?ct \<noteq> []"
    using utf8_encode_nonempty [OF assms(2)] xor_stream_length [of _ 0 "utf8_encode p"]
    by (metis length_0_conv)
  have tagne: "word_bytes (gcm_tag C ?key ?ivb ?ct) \<noteq> []"
    using word_bytes_length [of "gcm_tag C ?key ?ivb ?ct"] by auto
  have "decrypt C env (hex_encode ?ct) (hex_encode ?ivb)
          (hex_encode (word_bytes (gcm_tag C ?key ?ivb ?ct))) = Inr (utf8_decode (utf8_encode p))"
    using k ivne ctne tagne
    by (simp add: decrypt_def Let_def hex_decode_encode hex_encode_empty hex_encode_length
        word_bytes_length xor_stream_twice)
  with enc show ?thesis by (simp add: decrypt_after_encrypt_def)
qed

lemma toy_scrypt: "\<forall>pw salt n. length (scryptSync toy_crypto pw salt n) = n"
  by (simp add: toy_crypto_def)

subsection \<open>The tag check of \<open>decrypt\<close>\<close>

text \<open>
  A hexadecimal text whose last character is replaced by a character that is no hexadecimal
  digit decodes to one byte less: \<open>Buffer.from(text, 'hex')\<close> stops at the first pair that
  is not two hexadecimal digits.
\<close>

lemma hex_decode_cut:
  "\<not> is_hex_digit c2 \<Longrightarrow> hex_decode (hex_encode bs @ [c1, c2]) = bs"
proof (induction bs)
  case Nil
  then show ?case by (simp add: hex_encode_def)
next
  case (Cons b bs)
  have "unat b < 256" using unsigned_less [of b, where ?'a = nat] by simp
  then have hi: "unat b div 16 < 16" by simp
  have lo: "unat b mod 16 < 16" by simp
  have "of_nat (16 * (unat b div 16) + unat b mod 16) = b" by simp
  with hex_char_digit [OF hi] hex_char_digit [OF lo] Cons show ?case
    by (simp add: hex_encode_def)
qed

lemma hex_encode_snoc:
  "hex_encode (bs @ [b]) = hex_encode bs @ [hex_char (unat b div 16), hex_char (unat b mod 16)]"
  by (simp add: hex_encode_def)

lemma hex_decode_last_replaced:
  assumes "bs \<noteq> []" and "\<not> is_hex_digit c"
  shows "hex_decode (butlast (hex_encode bs) @ [c]) = butlast bs"
proof -
  from assms(1) obtain xs b where bs: "bs = xs @ [b]" by (metis rev_exhaust)
  have "butlast (hex_encode bs) @ [c] = hex_encode xs @ [hex_char (unat b div 16), c]"
    unfolding bs hex_encode_snoc by (simp add: butlast_append)
  then show ?thesis using hex_decode_cut [OF assms(2)] bs by simp
qed

lemma wrong_tag_rejected:
  assumes "length (hex_decode taghex) = 16"
    and "hex_decode taghex \<noteq>
           word_bytes (gcm_tag C (getEncryptionKey C env) (hex_decode ivhex) (hex_decode data))"
  shows "isl (decrypt C env data ivhex taghex)"
  using assms by (simp add: decrypt_def Let_def word_bytes_length)

lemma sample_scrypt: "\<forall>pw salt n. length (scryptSync sample_crypto pw salt n) = n"
  by (simp add: sample_crypto_def)

lemma sample_key: "getEncryptionKey sample_crypto dev_env = replicate 32 7"
  by (simp add: getEncryptionKey_def sample_crypto_def dev_env_def KEY_LENGTH_def)

lemma sample_iv:
  "word_bytes 0x0102030405060708090A0B0C0D0E0F10 =
     [0x01, 0x02, 0x03, 0x04, 0x05, 0x06, 0x07, 0x08, 0x09, 0x0A, 0x0B, 0x0C, 0x0D, 0x0E, 0x0F, 0x10]"
  by (simp add: word_bytes_def upt_rec)

lemma sample_tag:
  "word_bytes 0xA1B2C3D4E5F60718293A4B5C6D7E8F93 =
     [0xA1, 0xB2, 0xC3, 0xD4, 0xE5, 0xF6, 0x07, 0x18, 0x29, 0x3A, 0x4B, 0x5C, 0x6D, 0x7E, 0x8F, 0x93]"
  by (simp add: word_bytes_def upt_rec)

lemma sample_utf8: "utf8_encode [0x70, 0xE9] = [0x70, 0xC3, 0xA9]"
  by (simp add: utf8_encode_def utf8_bytes_of_def is_surrogate_def is_high_surrogate_def is_low_surrogate_def)

lemma sample_encrypt:
  "encrypt sample_crypto dev_env 0x0102030405060708090A0B0C0D0E0F10 [0x70, 0xE9] =
     Inr \<lparr>encrypted = ''78caa3'', iv = ''0102030405060708090a0b0c0d0e0f10'',
           tag = ''a1b2c3d4e5f60718293a4b5c6d7e8f93''\<rparr>"
proof -
  have ct: "xor_stream (gcm_keystream sample_crypto (replicate 32 7)
              (word_bytes 0x0102030405060708090A0B0C0D0E0F10)) 0 [0x70, 0xC3, 0xA9]
            = [0x78, 0xCA, 0xA3]"
    by (simp add: sample_crypto_def)
  have tg: "gcm_tag sample_crypto (replicate 32 7) (word_bytes 0x0102030405060708090A0B0C0D0E0F10)
              [0x78, 0xCA, 0xA3] = 0xA1B2C3D4E5F60718293A4B5C6D7E8F93"
    by (simp add: sample_crypto_def)
  have h1: "hex_encode [0x78, 0xCA, 0xA3] = ''78caa3''" by (simp add: hex_encode_def hex_char_def)
  have h2: "hex_encode [0x01, 0x02, 0x03, 0x04, 0x05, 0x06, 0x07, 0x08, 0x09, 0x0A, 0x0B, 0x0C,
              0x0D, 0x0E, 0x0F, 0x10] = ''0102030405060708090a0b0c0d0e0f10''"
    by (simp add: hex_encode_def hex_char_def)
  have h3: "hex_encode [0xA1, 0xB2, 0xC3, 0xD4, 0xE5, 0xF6, 0x07, 0x18, 0x29, 0x3A, 0x4B, 0x5C,
              0x6D, 0x7E, 0x8F, 0x93] = ''a1b2c3d4e5f60718293a4b5c6d7e8f93''"
    by (simp add: hex_encode_def hex_char_def)
  have iv16: "word_bytes 0x0102030405060708090A0B0C0D0E0F10 \<noteq> []"
    using word_bytes_length [of "0x0102030405060708090A0B0C0D0E0F10"] by auto
  show ?thesis
    unfolding encrypt_def Let_def sample_key sample_utf8 ct tg sample_tag h3 h1
    using iv16 by (simp add: sample_iv h2)
qed

section \<open>Round trip of the credential codec\<close>

text \<open>
  C6 as stated (\<open>decrypt(encrypt(p))\<close> is \<open>p\<close> for every non-empty password) fails
  for a string with an unpaired surrogate: the \<open>'utf8'\<close> encoding writes the lone code
  unit U+D800 as the bytes of U+FFFD, so decryption returns U+FFFD, whatever the cipher.
\<close>

theorem unpaired_surrogate_not_recovered:
  "decrypt_after_encrypt toy_crypto dev_env 0 [0xD800] = Inr [0xFFFD]
   \<and> [0xFFFD] \<noteq> [0xD800 :: 16 word]"
proof -
  have "utf8_decode (utf8_encode [0xD800]) = [0xFFFD]"
    by (simp add: utf8_encode_def utf8_bytes_of_def is_surrogate_def utf8_decode_def is_cont_def
        code_units_of_def)
  with decrypt_after_encrypt_utf8 [OF toy_scrypt, of "[0xD800]" dev_env 0] show ?thesis by simp
qed

text \<open>
  C6, amended. For every non-empty password without unpaired surrogates, every key
  material and every initialisation vector drawn by \<open>encrypt\<close>, decrypting the triple
  that \<open>encrypt\<close> returns gives back exactly the password. The key derivation is only
  required to return as many bytes as it is asked for.
\<close>

theorem decrypt_encrypt_well_formed:
  assumes "\<forall>pw salt n. length (scryptSync C pw salt n) = n"
    and "p \<noteq> []" and "well_formed p"
  shows "decrypt_after_encrypt C env rnd p = Inr p"
  using decrypt_after_encrypt_utf8 [OF assms(1,2)] utf8_decode_encode [OF assms(3)] by simp

theorem decrypt_encrypt_well_formed_witness:
  "(\<forall>pw salt n. length (scryptSync toy_crypto pw salt n) = n)
   \<and> [0x70, 0xE9, 0xD83D, 0xDE00] \<noteq> ([] :: 16 word list)
   \<and> well_formed [0x70, 0xE9, 0xD83D, 0xDE00]
   \<and> decrypt_after_encrypt toy_crypto dev_env 0x0102030405060708090A0B0C0D0E0F10
        [0x70, 0xE9, 0xD83D, 0xDE00] = Inr [0x70, 0xE9, 0xD83D, 0xDE00]"
proof -
  have w: "well_formed [0x70, 0xE9, 0xD83D, 0xDE00]"
    by (simp add: well_formed_def is_surrogate_def is_high_surrogate_def is_low_surrogate_def)
  have n: "[0x70, 0xE9, 0xD83D, 0xDE00] \<noteq> ([] :: 16 word list)" by simp
  from decrypt_encrypt_well_formed [OF toy_scrypt n w] toy_scrypt w show ?thesis by simp
qed

section \<open>Tampering with the stored tag\<close>

text \<open>
  C7 says that altering any single byte of the ciphertext, of the iv or of the tag makes
  \<open>decrypt\<close> raise. For the tag this fails, whatever the cipher: \<open>decrypt\<close> hands
  \<open>Buffer.from(tag, 'hex')\<close> to \<open>setAuthTag\<close> and never compares its length with
  \<open>TAG_LENGTH\<close>, and no \<open>authTagLength\<close> is given to \<open>createDecipheriv\<close>. For every
  key derivation that returns as many bytes as asked, every tag function, every key
  stream, every non-empty password \<open>p\<close> without unpaired surrogates and every
  initialisation vector, replacing the last character of the stored tag by any character
  that is no hexadecimal digit gives a text of the same length that differs from the
  stored tag, decodes to the first fifteen bytes of the tag, and is accepted:
  \<open>decrypt\<close> returns \<open>p\<close> and raises nothing. (A text that decodes to sixteen bytes other
  than the tag is refused, lemma \<open>wrong_tag_rejected\<close>. Whether a changed ciphertext or iv
  changes the tag is a property of the cipher, a parameter here.)
\<close>

theorem decrypt_accepts_truncated_tag:
  assumes "\<forall>pw salt n. length (scryptSync C pw salt n) = n"
    and "p \<noteq> []" and "well_formed p" and "\<not> is_hex_digit c"
  shows "\<exists>d. encrypt C env rnd p = Inr d
           \<and> butlast (tag d) @ [c] \<noteq> tag d
           \<and> length (butlast (tag d) @ [c]) = length (tag d)
           \<and> decrypt C env (encrypted d) (iv d) (butlast (tag d) @ [c]) = Inr p"
proof -
  let ?key = "getEncryptionKey C env"
  let ?ivb = "word_bytes rnd"
  let ?ct = "xor_stream (gcm_keystream C ?key ?ivb) 0 (utf8_encode p)"
  let ?tb = "word_bytes (gcm_tag C ?key ?ivb ?ct)"
  let ?d = "\<lparr>encrypted = hex_encode ?ct, iv = hex_encode ?ivb, tag = hex_encode ?tb\<rparr>"
  have k: "length ?key = 32" using key_length [OF assms(1)] .
  have ivne: "?ivb \<noteq> []" using word_bytes_length [of rnd] by auto
  have enc: "encrypt C env rnd p = Inr ?d"
    using assms(2) k ivne by (simp add: encrypt_def Let_def)
  have ctne: "?ct \<noteq> []"
    using utf8_encode_nonempty [OF assms(2)] xor_stream_length [of _ 0 "utf8_encode p"]
    by (metis length_0_conv)
  have tbne: "?tb \<noteq> []" using word_bytes_length [of "gcm_tag C ?key ?ivb ?ct"] by auto
  have dec: "hex_decode (butlast (hex_encode ?tb) @ [c]) = butlast ?tb"
    using hex_decode_last_replaced [OF tbne assms(4)] .
  have len: "length (butlast ?tb) = 15" by (simp add: word_bytes_length)
  have tk: "take 15 ?tb = butlast ?tb" by (simp add: butlast_conv_take word_bytes_length)
  have "decrypt C env (hex_encode ?ct) (hex_encode ?ivb) (butlast (hex_encode ?tb) @ [c]) = Inr p"
    using k ivne ctne
    by (simp add: decrypt_def Let_def dec tk word_bytes_length hex_decode_encode
        hex_encode_empty hex_encode_length xor_stream_twice utf8_decode_encode [OF assms(3)])
  moreover have "butlast (hex_encode ?tb) @ [c] \<noteq> hex_encode ?tb"
  proof
    assume "butlast (hex_encode ?tb) @ [c] = hex_encode ?tb"
    then have "hex_decode (butlast (hex_encode ?tb) @ [c]) = hex_decode (hex_encode ?tb)" by simp
    then have "butlast ?tb = ?tb" by (simp only: dec hex_decode_encode)
    then have "length (butlast ?tb) = length ?tb" by simp
    then show False by (simp add: word_bytes_length)
  qed
  moreover have "length (butlast (hex_encode ?tb) @ [c]) = length (hex_encode ?tb)"
    by (simp add: hex_encode_length word_bytes_length)
  ultimately show ?thesis using enc by simp
qed

text \<open>
  The password of the two code units U+0070 and U+00E9 under \<open>sample_crypto\<close>:
  \<open>encrypt\<close> stores the tag
  "a1b2c3d4e5f60718293a4b5c6d7e8f93"; with the last character changed to "z" \<open>decrypt\<close>
  still returns the password.
\<close>

theorem decrypt_accepts_truncated_tag_witness:
  "(\<forall>pw salt n. length (scryptSync sample_crypto pw salt n) = n)
   \<and> [0x70, 0xE9] \<noteq> ([] :: 16 word list) \<and> well_formed [0x70, 0xE9]
   \<and> \<not> is_hex_digit CHR ''z''
   \<and> encrypt sample_crypto dev_env 0x0102030405060708090A0B0C0D0E0F10 [0x70, 0xE9] =
     Inr \<lparr>encrypted = ''78caa3'', iv = ''0102030405060708090a0b0c0d0e0f10'',
           tag = ''a1b2c3d4e5f60718293a4b5c6d7e8f93''\<rparr>
   \<and> decrypt sample_crypto dev_env ''78caa3'' ''0102030405060708090a0b0c0d0e0f10''
        ''a1b2c3d4e5f60718293a4b5c6d7e8f9z'' = Inr [0x70, 0xE9]"
proof -
  have w: "well_formed [0x70, 0xE9]"
    by (simp add: well_formed_def is_surrogate_def is_high_surrogate_def is_low_surrogate_def)
  have n: "[0x70, 0xE9] \<noteq> ([] :: 16 word list)" by simp
  have z: "\<not> is_hex_digit CHR ''z''" by (simp add: is_hex_digit_def)
  from decrypt_accepts_truncated_tag [OF sample_scrypt n w z, of dev_env "0x0102030405060708090A0B0C0D0E0F10"]
  have "decrypt sample_crypto dev_env ''78caa3'' ''0102030405060708090a0b0c0d0e0f10''
        (butlast ''a1b2c3d4e5f60718293a4b5c6d7e8f93'' @ ''z'') = Inr [0x70, 0xE9]"
    unfolding sample_encrypt by simp
  then show ?thesis using sample_encrypt sample_scrypt w z by simp
qed

section \<open>Address resolver: the two addresses of the specification\<close>

text \<open>
  C9. \<open>parseRouterUrl\<close> maps "192.168.1.1" (no scheme, no port) to host "192.168.1.1"
  with the SSH default port 22, and "http://r.local:8080/x" (scheme, explicit port, path)
  to host "r.local" with port 8080.
\<close>

theorem parseRouterUrl_spec_addresses:
  "parseRouterUrl ''192.168.1.1'' =
     Some \<lparr>hostname = ''192.168.1.1'', port = 22, baseUrl = ''http://192.168.1.1:22''\<rparr>
   \<and> parseRouterUrl ''http://r.local:8080/x'' =
     Some \<lparr>hostname = ''r.local'', port = 8080, baseUrl = ''http://r.local:8080''\<rparr>"
  by (simp add: parseRouterUrl_def split_str_def mk_parsed_def show_nat.simps digit_char_def
      is_digit_def digits_val_def digit_val_def)

end
